theory Spec2Isabelle
  imports Main "HOL-Library.Word" "HOL-Library.Sublist"
begin

section \<open>JavaScript strings\<close>

text \<open>
  A JavaScript string is a sequence of UTF-16 code units. \<open>js\<close> turns an ASCII literal
  into its code units. The character classes are those of ECMAScript: \<open>WhiteSpace\<close>
  and \<open>LineTerminator\<close>; \<open>String.prototype.trim\<close> and the regular expression
  escape \<open>\s\<close> both use their union, and the regular expression \<open>.\<close> (without the
  \<open>s\<close> flag) matches every code unit that is not a \<open>LineTerminator\<close>.
\<close>

type_synonym jschar = "16 word"
type_synonym jsstring = "jschar list"

definition js :: "string \<Rightarrow> jsstring" where
  "js s = map (\<lambda>c. word_of_nat (of_char c)) s"

definition LF :: jschar where "LF = 0x0A"
definition COMMA :: jschar where "COMMA = 0x2C"
definition DASH :: jschar where "DASH = 0x2D"
definition DQUOTE :: jschar where "DQUOTE = 0x22"

definition is_line_terminator :: "jschar \<Rightarrow> bool" where
  "is_line_terminator c = (c = 0x0A \<or> c = 0x0D \<or> c = 0x2028 \<or> c = 0x2029)"

definition is_white_space :: "jschar \<Rightarrow> bool" where
  "is_white_space c =
     (c = 0x09 \<or> c = 0x0B \<or> c = 0x0C \<or> c = 0x20 \<or> c = 0xA0 \<or> c = 0x1680
      \<or> (0x2000 \<le> c \<and> c \<le> 0x200A) \<or> c = 0x202F \<or> c = 0x205F \<or> c = 0x3000
      \<or> c = 0xFEFF)"

definition is_space :: "jschar \<Rightarrow> bool" where
  "is_space c = (is_white_space c \<or> is_line_terminator c)"

text \<open>\<open>s.trim()\<close>\<close>

definition trim :: "jsstring \<Rightarrow> jsstring" where
  "trim s = rev (dropWhile is_space (rev (dropWhile is_space s)))"

text \<open>\<open>s.split(sep)\<close> for a separator of one code unit: never an empty array.\<close>

fun split :: "jschar \<Rightarrow> jsstring \<Rightarrow> jsstring list" where
  "split sep [] = [[]]"
| "split sep (c # cs) =
     (if c = sep then [] # split sep cs
      else (c # hd (split sep cs)) # tl (split sep cs))"

text \<open>\<open>s.startsWith(p)\<close>\<close>

definition startsWith :: "jsstring \<Rightarrow> jsstring \<Rightarrow> bool" where
  "startsWith s p = prefix p s"

text \<open>\<open>s.substring(start, end)\<close> with non-negative integer arguments: both are clamped to
  the length, and swapped when \<open>start\<close> exceeds \<open>end\<close>.\<close>

definition substring :: "jsstring \<Rightarrow> nat \<Rightarrow> nat \<Rightarrow> jsstring" where
  "substring s start end =
     (let len = length s;
          finalStart = min start len;
          finalEnd = min end len;
          from = min finalStart finalEnd;
          to = max finalStart finalEnd
      in take (to - from) (drop from s))"

text \<open>\<open>xs.join(sep)\<close>\<close>

fun join :: "jsstring \<Rightarrow> jsstring list \<Rightarrow> jsstring" where
  "join sep [] = []"
| "join sep [x] = x"
| "join sep (x # y # ys) = x @ sep @ join sep (y # ys)"


section \<open>Values, errors and \<open>JSON.stringify\<close>\<close>

text \<open>
  The objects the program builds hold strings, arrays and nested objects. An object is
  its list of properties in insertion order, which is the order \<open>JSON.stringify\<close>
  writes them in. A thrown \<open>Error\<close> is its \<open>message\<close>, the only part the program reads.
\<close>

datatype jsvalue =
    JStr jsstring
  | JArr "jsvalue list"
  | JObj "(jsstring \<times> jsvalue) list"

datatype js_error = JsError (message: jsstring)

fun field :: "string \<Rightarrow> jsvalue \<Rightarrow> jsvalue option" where
  "field k (JObj kvs) = map_of kvs (js k)"
| "field k v = None"

definition hex_digit :: "jschar \<Rightarrow> jschar" where
  "hex_digit d = (if d < 10 then 0x30 + d else 0x61 + (d - 10))"

text \<open>\<open>UnicodeEscape\<close>: a backslash, \<open>u\<close> and four lower-case hexadecimal digits.\<close>

definition unicode_escape :: "jschar \<Rightarrow> jsstring" where
  "unicode_escape c =
     [0x5C, 0x75, hex_digit (c div 0x1000 mod 0x10), hex_digit (c div 0x100 mod 0x10),
      hex_digit (c div 0x10 mod 0x10), hex_digit (c mod 0x10)]"

definition is_leading_surrogate :: "jschar \<Rightarrow> bool" where
  "is_leading_surrogate c = (0xD800 \<le> c \<and> c \<le> 0xDBFF)"

definition is_trailing_surrogate :: "jschar \<Rightarrow> bool" where
  "is_trailing_surrogate c = (0xDC00 \<le> c \<and> c \<le> 0xDFFF)"

text \<open>One code point that is not the first half of a surrogate pair, as
  \<open>QuoteJSONString\<close> writes it.\<close>

definition quote_char :: "jschar \<Rightarrow> jsstring" where
  "quote_char c =
     (if c = 0x08 then [0x5C, 0x62]
      else if c = 0x09 then [0x5C, 0x74]
      else if c = 0x0A then [0x5C, 0x6E]
      else if c = 0x0C then [0x5C, 0x66]
      else if c = 0x0D then [0x5C, 0x72]
      else if c = 0x22 then [0x5C, 0x22]
      else if c = 0x5C then [0x5C, 0x5C]
      else if c < 0x20 \<or> is_leading_surrogate c \<or> is_trailing_surrogate c
        then unicode_escape c
      else [c])"

fun quote_units :: "jsstring \<Rightarrow> jsstring" where
  "quote_units [] = []"
| "quote_units [c] = quote_char c"
| "quote_units (c # d # ds) =
     (if is_leading_surrogate c \<and> is_trailing_surrogate d then c # d # quote_units ds
      else quote_char c @ quote_units (d # ds))"

definition QuoteJSONString :: "jsstring \<Rightarrow> jsstring" where
  "QuoteJSONString s = [DQUOTE] @ quote_units s @ [DQUOTE]"

text \<open>\<open>SerializeJSONProperty\<close> with a gap of two spaces; the first argument is the
  current indentation.\<close>

definition gap :: jsstring where "gap = js ''  ''"

fun SerializeJSON :: "jsstring \<Rightarrow> jsvalue \<Rightarrow> jsstring" where
  "SerializeJSON indent (JStr s) = QuoteJSONString s"
| "SerializeJSON indent (JArr vs) =
     (if vs = [] then js ''[]''
      else js ''['' @ [LF] @ (indent @ gap)
           @ join (js '','' @ [LF] @ (indent @ gap)) (map (SerializeJSON (indent @ gap)) vs)
           @ [LF] @ indent @ js '']'')"
| "SerializeJSON indent (JObj kvs) =
     (if kvs = [] then js ''{}''
      else js ''{'' @ [LF] @ (indent @ gap)
           @ join (js '','' @ [LF] @ (indent @ gap))
               (map (\<lambda>kv. QuoteJSONString (fst kv) @ js '': ''
                            @ SerializeJSON (indent @ gap) (snd kv)) kvs)
           @ [LF] @ indent @ js ''}'')"

text \<open>\<open>JSON.stringify(value, null, 2)\<close>\<close>

definition JSON_stringify :: "jsvalue \<Rightarrow> jsstring" where
  "JSON_stringify v = SerializeJSON [] v"


section \<open>The page fetcher: \<open>scrapeURL\<close>\<close>

text \<open>
  What the function passed to \<open>page.evaluate\<close> reads from the document, after the
  \<open>script\<close> and \<open>style\<close> elements are removed.
\<close>

record page_dom =
  document_title :: jsstring
  body_innerText :: "js_error + jsstring"
    \<comment> \<open>\<open>document.body.innerText\<close>; \<open>Inl\<close> the \<open>TypeError\<close> when \<open>document.body\<close> is null\<close>
  price_element :: "jsstring option"
    \<comment> \<open>\<open>textContent\<close> of the element \<open>querySelector\<close> finds, \<open>None\<close> for null\<close>
  temp_elements :: "jsstring list"
    \<comment> \<open>\<open>textContent\<close> of each element \<open>querySelectorAll\<close> finds\<close>
  location_href :: jsstring

definition structuredData_of :: "page_dom \<Rightarrow> jsvalue" where
  "structuredData_of d =
     JObj ((case price_element d of
              None \<Rightarrow> []
            | Some t \<Rightarrow> [(js ''price'', JStr (trim t))])
           @ (if length (temp_elements d) > 0
              then [(js ''weather'', JArr (map (\<lambda>t. JStr (trim t)) (temp_elements d)))]
              else []))"

definition page_function :: "page_dom \<Rightarrow> js_error + jsvalue" where
  "page_function d =
     (case body_innerText d of
        Inl e \<Rightarrow> Inl e
      | Inr bodyText \<Rightarrow>
          Inr (JObj [(js ''title'', JStr (document_title d)),
                     (js ''bodyText'', JStr (substring bodyText 0 5000)),
                     (js ''structuredData'', structuredData_of d),
                     (js ''url'', JStr (location_href d))]))"

text \<open>
  What the browser does during one call of \<open>scrapeURL\<close>: the result of each awaited
  Playwright call, \<open>None\<close> when it resolves and \<open>Some\<close> the error it rejects with.
\<close>

record browser_session =
  launch_result :: "js_error option"
    \<comment> \<open>\<open>chromium.launch\<close>, \<open>browser.newContext\<close>, \<open>context.newPage\<close>: before the \<open>try\<close>\<close>
  goto_result :: "js_error option"
  waitForTimeout_result :: "js_error option"
  evaluate_result :: "js_error + page_dom"
    \<comment> \<open>\<open>Inl\<close> when \<open>page.evaluate\<close> rejects by itself, \<open>Inr\<close> the document the page
       function runs on\<close>
  close_result :: "js_error option"
    \<comment> \<open>\<open>browser.close\<close> in the \<open>finally\<close> block\<close>

text \<open>The body of the \<open>try\<close> block.\<close>

definition scrape_try :: "browser_session \<Rightarrow> js_error + jsvalue" where
  "scrape_try b =
     (case goto_result b of
        Some e \<Rightarrow> Inl e
      | None \<Rightarrow>
          (case waitForTimeout_result b of
             Some e \<Rightarrow> Inl e
           | None \<Rightarrow>
               (case evaluate_result b of
                  Inl e \<Rightarrow> Inl e
                | Inr d \<Rightarrow> page_function d)))"

text \<open>The \<open>catch\<close> block.\<close>

definition scrape_catch :: "jsstring \<Rightarrow> js_error \<Rightarrow> jsvalue" where
  "scrape_catch url error =
     JObj [(js ''url'', JStr url),
           (js ''error'', JStr (message error)),
           (js ''title'', JStr (js ''Error'')),
           (js ''bodyText'', JStr (js ''Failed to scrape: '' @ message error))]"

text \<open>
  \<open>scrapeURL\<close>: a rejected launch propagates, since it is awaited before the \<open>try\<close>; an
  error thrown in the \<open>finally\<close> block replaces the value being returned.
\<close>

definition scrapeURL :: "browser_session \<Rightarrow> jsstring \<Rightarrow> js_error + jsvalue" where
  "scrapeURL b url =
     (case launch_result b of
        Some e \<Rightarrow> Inl e
      | None \<Rightarrow>
          (let result = (case scrape_try b of
                           Inr pageData \<Rightarrow> pageData
                         | Inl error \<Rightarrow> scrape_catch url error)
           in case close_result b of
                Some e \<Rightarrow> Inl e
              | None \<Rightarrow> Inr result))"

text \<open>
  The loop of \<open>main\<close> over the targets: \<open>browser k url\<close> is the session of call number
  \<open>k\<close>, \<open>scrapedData\<close> the array filled by \<open>push\<close>.
\<close>

fun scrape_loop ::
  "(nat \<Rightarrow> jsstring \<Rightarrow> browser_session) \<Rightarrow> nat \<Rightarrow> jsstring list \<Rightarrow> jsvalue list
     \<Rightarrow> js_error + jsvalue list" where
  "scrape_loop browser k [] scrapedData = Inr scrapedData"
| "scrape_loop browser k (url # urls) scrapedData =
     (case scrapeURL (browser k url) url of
        Inl e \<Rightarrow> Inl e
      | Inr data \<Rightarrow> scrape_loop browser (Suc k) urls (scrapedData @ [data]))"


section \<open>Regular expressions\<close>

text \<open>
  The backtracking matcher of ECMAScript for the operators the program's two patterns
  use. A matcher maps a state to the list of states it can end in, in the order in which
  backtracking tries them; the head is the result of the match. \<open>pos\<close> is the index in
  the input, \<open>rest\<close> the input from there on.
\<close>

datatype atom = Lit jschar | Space | Dot

fun atom_matches :: "atom \<Rightarrow> jschar \<Rightarrow> bool" where
  "atom_matches (Lit a) c = (c = a)"
| "atom_matches Space c = is_space c"
| "atom_matches Dot c = (\<not> is_line_terminator c)"

datatype regex =
    Eps
  | Atom atom
  | Bol
  | Seq regex regex
  | Star regex
  | Plus regex
  | Group nat regex

record mstate =
  pos :: nat
  rest :: jsstring
  captures :: "(nat \<times> jsstring) list"

text \<open>The state after \<open>k\<close> more code units of the input are consumed.\<close>

definition advance :: "nat \<Rightarrow> mstate \<Rightarrow> mstate" where
  "advance k x = x\<lparr>pos := pos x + k, rest := drop k (rest x)\<rparr>"

text \<open>
  The greedy \<open>RepeatMatcher\<close> with minimum 0: first one more iteration, dropping an
  iteration that consumed nothing, then the continuation at the current state.
\<close>

function star :: "(mstate \<Rightarrow> mstate list) \<Rightarrow> mstate \<Rightarrow> mstate list" where
  "star f x =
     concat (map (\<lambda>y. if length (rest y) < length (rest x) then star f y else []) (f x)) @ [x]"
  by pat_completeness auto
termination
  by (relation "measure (\<lambda>(f, x). length (rest x))") auto

declare star.simps [simp del]

primrec matcher :: "regex \<Rightarrow> mstate \<Rightarrow> mstate list" where
  "matcher Eps x = [x]"
| "matcher (Atom a) x =
     (case rest x of
        [] \<Rightarrow> []
      | c # cs \<Rightarrow> if atom_matches a c then [x\<lparr>pos := Suc (pos x), rest := cs\<rparr>] else [])"
| "matcher Bol x = (if pos x = 0 then [x] else [])"
| "matcher (Seq r1 r2) x = concat (map (matcher r2) (matcher r1 x))"
| "matcher (Star r) x = star (matcher r) x"
| "matcher (Plus r) x = concat (map (star (matcher r)) (matcher r x))"
| "matcher (Group n r) x =
     map (\<lambda>y. y\<lparr>captures := (n, take (pos y - pos x) (rest x)) # captures y\<rparr>) (matcher r x)"

fun lits :: "jsstring \<Rightarrow> regex" where
  "lits [] = Eps"
| "lits (c # cs) = Seq (Atom (Lit c)) (lits cs)"

record match_result =
  index :: nat
  matched :: jsstring
  groups :: "(nat \<times> jsstring) list"

text \<open>
  \<open>RegExpBuiltinExec\<close> of a pattern without the \<open>g\<close> and \<open>y\<close> flags: the matcher is tried
  at index 0, 1, ... up to the length of the input, and the first success is the match.
\<close>

fun exec_from :: "regex \<Rightarrow> nat \<Rightarrow> jsstring \<Rightarrow> match_result option" where
  "exec_from r i s =
     (case matcher r \<lparr>pos = i, rest = s, captures = []\<rparr> of
        y # ys \<Rightarrow> Some \<lparr>index = i, matched = take (pos y - i) s, groups = captures y\<rparr>
      | [] \<Rightarrow> (case s of [] \<Rightarrow> None | c # cs \<Rightarrow> exec_from r (Suc i) cs))"

declare exec_from.simps [simp del]

text \<open>\<open>s.match(r)\<close>, and \<open>match[n]\<close> (\<open>None\<close> for undefined)\<close>

definition js_match :: "jsstring \<Rightarrow> regex \<Rightarrow> match_result option" where
  "js_match s r = exec_from r 0 s"

definition group :: "match_result \<Rightarrow> nat \<Rightarrow> jsstring option" where
  "group m n = map_of (groups m) n"

text \<open>\<open>s.replace(r, replacement)\<close> for a replacement text without \<open>$\<close>\<close>

definition js_replace :: "jsstring \<Rightarrow> regex \<Rightarrow> jsstring \<Rightarrow> jsstring" where
  "js_replace s r replacement =
     (case exec_from r 0 s of
        None \<Rightarrow> s
      | Some m \<Rightarrow> take (index m) s @ replacement @ drop (index m + length (matched m)) s)"


section \<open>The configuration loader\<close>

text \<open>\<open>loadSystemPrompt\<close>: the argument is what \<open>fs.readFile\<close> of \<open>systemprompt.md\<close> gives;
  the \<open>catch\<close> block logs the error and throws it again.\<close>

definition loadSystemPrompt :: "js_error + jsstring \<Rightarrow> js_error + jsstring" where
  "loadSystemPrompt file =
     (case file of
        Inr systemPrompt \<Rightarrow> Inr systemPrompt
      | Inl error \<Rightarrow> Inl error)"

text \<open>\<open>/TARGET_URLS:\s*\n((?:- .*\n)+)/\<close>, with names for its parts \<open>(?:- .*\n)\<close> and
  \<open>\s*\n((?:- .*\n)+)\<close>\<close>

definition bulletPattern :: regex where
  "bulletPattern = Seq (lits (js ''- '')) (Seq (Star (Atom Dot)) (Atom (Lit LF)))"

definition listPattern :: regex where
  "listPattern = Seq (Star (Atom Space)) (Seq (Atom (Lit LF)) (Group 1 (Plus bulletPattern)))"

definition urlPattern :: regex where
  "urlPattern = Seq (lits (js ''TARGET_URLS:'')) listPattern"

text \<open>\<open>/^-\s*/\<close>\<close>

definition dashPattern :: regex where
  "dashPattern = Seq Bol (Seq (Atom (Lit DASH)) (Star (Atom Space)))"

definition default_urls :: "jsstring list" where
  "default_urls = [js ''https://www.google.com/finance/quote/VIX:INDEXCBOE'']"

text \<open>The \<open>TypeError\<close> of calling \<open>split\<close> on an undefined \<open>match[1]\<close>.\<close>

definition undefined_split_error :: js_error where
  "undefined_split_error =
     JsError (js ''Cannot read properties of undefined (reading '' @ [0x27] @ js ''split''
              @ [0x27] @ js '')'')"

text \<open>The part of \<open>loadTargetURLs\<close> that extracts the targets from the system prompt.\<close>

definition urls_from_prompt :: "js_error + jsstring \<Rightarrow> js_error + jsstring list" where
  "urls_from_prompt file =
     (case loadSystemPrompt file of
        Inl error \<Rightarrow> Inl error
      | Inr systemPrompt \<Rightarrow>
          (case js_match systemPrompt urlPattern of
             Some match \<Rightarrow>
               (case group match 1 of
                  None \<Rightarrow> Inl undefined_split_error
                | Some g \<Rightarrow>
                    Inr (map (\<lambda>line. trim (js_replace line dashPattern []))
                          (filter (\<lambda>line. startsWith (trim line) (js ''-'')) (split LF g))))
           | None \<Rightarrow> Inr default_urls))"

text \<open>
  \<open>loadTargetURLs\<close>: the first argument is \<open>process.env.TARGET_URLS\<close>, \<open>None\<close> when it is
  undefined; the empty string is falsy as well.
\<close>

fun loadTargetURLs :: "jsstring option \<Rightarrow> js_error + jsstring \<Rightarrow> js_error + jsstring list" where
  "loadTargetURLs (Some (c # cs)) file = Inr (map trim (split COMMA (c # cs)))"
| "loadTargetURLs (Some []) file = urls_from_prompt file"
| "loadTargetURLs None file = urls_from_prompt file"


section \<open>The report synthesizer: \<open>generateReport\<close>\<close>

text \<open>
  What the \<open>try\<close> block of \<open>generateReport\<close> gives: the request rejects, or reading
  \<open>completion.choices[0].message.content\<close> from the response throws, or it yields the
  content, which may be null.
\<close>

datatype api_outcome =
    CreateRejected js_error
  | ReadFailed js_error
  | Content "jsstring option"

definition fallback_head :: jsstring where
  \<open>fallback_head =
     [LF] @ js ''<!DOCTYPE html>'' @ [LF]
     @ js ''<html lang="ja">'' @ [LF]
     @ js ''<head>'' @ [LF]
     @ js ''    <meta charset="UTF-8">'' @ [LF]
     @ js ''    <meta name="viewport" content="width=device-width, initial-scale=1.0">'' @ [LF]
     @ js ''    <title>Scraping Report</title>'' @ [LF]
     @ js ''    <style>'' @ [LF]
     @ js ''        body { font-family: sans-serif; padding: 20px; line-height: 1.6; }'' @ [LF]
     @ js ''        .error { color: red; padding: 20px; border: 1px solid red; }'' @ [LF]
     @ js ''        .data-section { margin: 20px 0; padding: 15px; background: #f5f5f5; }'' @ [LF]
     @ js ''        h1 { color: #333; }'' @ [LF]
     @ js ''        pre { background: #f0f0f0; padding: 10px; overflow-x: auto; }'' @ [LF]
     @ js ''    </style>'' @ [LF]
     @ js ''</head>'' @ [LF]
     @ js ''<body>'' @ [LF]
     @ js ''    <h1>Scraping Report - ''\<close>

definition fallback_banner :: jsstring where
  \<open>fallback_banner =
     js ''</h1>'' @ [LF]
     @ js ''    <div class="error">'' @ [LF]
     @ js ''        <h2>Error generating report</h2>'' @ [LF]
     @ js ''        <p>''\<close>

definition fallback_data :: jsstring where
  \<open>fallback_data =
     js ''</p>'' @ [LF]
     @ js ''    </div>'' @ [LF]
     @ js ''    <div class="data-section">'' @ [LF]
     @ js ''        <h2>Raw Data</h2>'' @ [LF]
     @ js ''        <pre>''\<close>

definition fallback_tail :: jsstring where
  \<open>fallback_tail =
     js ''</pre>'' @ [LF]
     @ js ''    </div>'' @ [LF]
     @ js ''</body>'' @ [LF]
     @ js ''</html>'' @ [LF]
     @ js ''    ''\<close>

text \<open>
  The \<open>catch\<close> block: \<open>date\<close> is \<open>new Date().toLocaleString('ja-JP')\<close>, read when the
  fallback document is built.
\<close>

definition fallbackHTML :: "jsstring \<Rightarrow> js_error \<Rightarrow> jsvalue list \<Rightarrow> jsstring" where
  "fallbackHTML date error scrapedData =
     fallback_head @ date @ fallback_banner @ message error @ fallback_data
     @ JSON_stringify (JArr scrapedData) @ fallback_tail"

text \<open>
  \<open>generateReport\<close>; \<open>None\<close> is a null \<open>content\<close>. The system prompt goes into the request
  only, whose outcome is the argument \<open>api\<close>.
\<close>

definition generateReport ::
  "api_outcome \<Rightarrow> jsstring \<Rightarrow> jsvalue list \<Rightarrow> jsstring \<Rightarrow> jsstring option" where
  "generateReport api date scrapedData systemPrompt =
     (case api of
        Content c \<Rightarrow> c
      | CreateRejected error \<Rightarrow> Some (fallbackHTML date error scrapedData)
      | ReadFailed error \<Rightarrow> Some (fallbackHTML date error scrapedData))"


section \<open>The renderer and the orchestrator\<close>

datatype path = report_html | report_png

datatype file_content = Text jsstring | Image "8 word list"

type_synonym disk = "path \<rightharpoonup> file_content"

record render_session =
  render_launch_result :: "js_error option"
  setContent_result :: "js_error option"
  render_waitForTimeout_result :: "js_error option"
  screenshot_result :: "js_error + 8 word list"
    \<comment> \<open>\<open>Inr\<close> the image that \<open>page.screenshot\<close> writes to \<open>outputPath\<close>\<close>
  render_close_result :: "js_error option"

text \<open>
  \<open>htmlToPNG\<close>: returns the error it throws, if any, and the disk it leaves. The \<open>catch\<close>
  block throws the error again; the \<open>finally\<close> block closes the browser.
\<close>

definition htmlToPNG ::
  "render_session \<Rightarrow> jsstring \<Rightarrow> path \<Rightarrow> disk \<Rightarrow> js_error option \<times> disk" where
  "htmlToPNG r htmlContent outputPath d =
     (case render_launch_result r of
        Some e \<Rightarrow> (Some e, d)
      | None \<Rightarrow>
          (let tried =
                 (case setContent_result r of
                    Some e \<Rightarrow> (Some e, d)
                  | None \<Rightarrow>
                      (case render_waitForTimeout_result r of
                         Some e \<Rightarrow> (Some e, d)
                       | None \<Rightarrow>
                           (case screenshot_result r of
                              Inl e \<Rightarrow> (Some e, d)
                            | Inr png \<Rightarrow> (None, d(outputPath \<mapsto> Image png)))))
           in case render_close_result r of
                Some e \<Rightarrow> (Some e, snd tried)
              | None \<Rightarrow> tried))"

text \<open>Everything outside the program that one run of \<open>main\<close> reads. \<open>systemprompt.md\<close> is
  read by \<open>main\<close> and again by \<open>loadTargetURLs\<close>; both reads give \<open>systemprompt_file\<close>.\<close>

record world =
  env_TARGET_URLS :: "jsstring option"
  systemprompt_file :: "js_error + jsstring"
  browser_sessions :: "nat \<Rightarrow> jsstring \<Rightarrow> browser_session"
  api_response :: api_outcome
  now :: jsstring
  writeFile_result :: "js_error option"
  renderer :: render_session

text \<open>The calls of \<open>main\<close> that touch the disk, in the order in which they are made.\<close>

datatype event = WriteFile path jsstring | HtmlToPNG jsstring path

record run =
  trace :: "event list"
  final_disk :: disk
  exit_code :: nat

text \<open>
  \<open>main\<close>: every error that reaches its \<open>catch\<close> block ends the run with
  \<open>process.exit(1)\<close>. \<open>fs.writeFile\<close> throws on a null document; when it fails the disk is
  taken to be left as it was.
\<close>

definition main :: "world \<Rightarrow> disk \<Rightarrow> run" where
  "main w d =
     (case loadSystemPrompt (systemprompt_file w) of
        Inl error \<Rightarrow> \<lparr>trace = [], final_disk = d, exit_code = 1\<rparr>
      | Inr systemPrompt \<Rightarrow>
     (case loadTargetURLs (env_TARGET_URLS w) (systemprompt_file w) of
        Inl error \<Rightarrow> \<lparr>trace = [], final_disk = d, exit_code = 1\<rparr>
      | Inr urls \<Rightarrow>
     (case scrape_loop (browser_sessions w) 0 urls [] of
        Inl error \<Rightarrow> \<lparr>trace = [], final_disk = d, exit_code = 1\<rparr>
      | Inr scrapedData \<Rightarrow>
     (case generateReport (api_response w) (now w) scrapedData systemPrompt of
        None \<Rightarrow> \<lparr>trace = [], final_disk = d, exit_code = 1\<rparr>
      | Some reportHTML \<Rightarrow>
     (case writeFile_result w of
        Some error \<Rightarrow>
          \<lparr>trace = [WriteFile report_html reportHTML], final_disk = d, exit_code = 1\<rparr>
      | None \<Rightarrow>
     (case htmlToPNG (renderer w) reportHTML report_png (d(report_html \<mapsto> Text reportHTML)) of
        (Some error, d') \<Rightarrow>
          \<lparr>trace = [WriteFile report_html reportHTML, HtmlToPNG reportHTML report_png],
           final_disk = d', exit_code = 1\<rparr>
      | (None, d') \<Rightarrow>
          \<lparr>trace = [WriteFile report_html reportHTML, HtmlToPNG reportHTML report_png],
           final_disk = d', exit_code = 0\<rparr>))))))"


section \<open>Properties of the fetcher\<close>

lemma substring_from_0: "substring s 0 n = take n s"
  by (simp add: substring_def Let_def min_def)



text \<open>
  C2, as the code has it: when the browser is launched and closed without error,
  \<open>scrapeURL\<close> returns a snapshot for every target and every outcome of navigation and
  extraction; if the \<open>try\<close> block threw \<open>e\<close>, the snapshot is the one of the \<open>catch\<close> block:
  its \<open>error\<close> is the message of \<open>e\<close>, its \<open>title\<close> is \<open>Error\<close>, its \<open>bodyText\<close> is
  \<open>Failed to scrape: \<close> followed by that message, and it has no \<open>structuredData\<close>.
\<close>

theorem C2_failure_captured:
  assumes "launch_result b = None" and "close_result b = None"
  shows "\<exists>snap. scrapeURL b url = Inr snap \<and>
           (\<forall>e. scrape_try b = Inl e \<longrightarrow>
              field ''url'' snap = Some (JStr url)
              \<and> field ''error'' snap = Some (JStr (message e))
              \<and> field ''title'' snap = Some (JStr (js ''Error''))
              \<and> field ''bodyText'' snap = Some (JStr (js ''Failed to scrape: '' @ message e))
              \<and> sublist (message e) (js ''Failed to scrape: '' @ message e)
              \<and> field ''structuredData'' snap = None)"
proof -
  have fields: "field ''url'' (scrape_catch url e) = Some (JStr url)
      \<and> field ''error'' (scrape_catch url e) = Some (JStr (message e))
      \<and> field ''title'' (scrape_catch url e) = Some (JStr (js ''Error''))
      \<and> field ''bodyText'' (scrape_catch url e)
          = Some (JStr (js ''Failed to scrape: '' @ message e))
      \<and> field ''structuredData'' (scrape_catch url e) = None" for e
    by (simp add: scrape_catch_def js_def)
  have sub: "sublist (message e) (js ''Failed to scrape: '' @ message e)" for e
    using sublist_appendI [of "message e" "js ''Failed to scrape: ''" "[]"] by simp
  show ?thesis
  proof (cases "scrape_try b")
    case (Inl e)
    with assms fields [of e] sub [of e] show ?thesis
      by (simp add: scrapeURL_def)
  next
    case (Inr pageData)
    with assms show ?thesis
      by (simp add: scrapeURL_def)
  qed
qed

theorem C2_failure_captured_witness:
  "scrapeURL
     \<lparr>launch_result = None,
      goto_result = Some (JsError (js ''page.goto: net::ERR_NAME_NOT_RESOLVED'')),
      waitForTimeout_result = None,
      evaluate_result = Inl (JsError (js ''unused'')), close_result = None\<rparr> (js ''http://nowhere.invalid'')
   = Inr (JObj [(js ''url'', JStr (js ''http://nowhere.invalid'')),
                (js ''error'', JStr (js ''page.goto: net::ERR_NAME_NOT_RESOLVED'')),
                (js ''title'', JStr (js ''Error'')),
                (js ''bodyText'',
                 JStr (js ''Failed to scrape: page.goto: net::ERR_NAME_NOT_RESOLVED''))])"
proof -
  let ?e = "JsError (js ''page.goto: net::ERR_NAME_NOT_RESOLVED'')"
  let ?b = "\<lparr>launch_result = None, goto_result = Some ?e, waitForTimeout_result = None,
      evaluate_result = Inl (JsError (js ''unused'')), close_result = None\<rparr>"
  have t: "scrape_try ?b = Inl ?e"
    by (simp add: scrape_try_def)
  from C2_failure_captured [of ?b "js ''http://nowhere.invalid''"] t
  show ?thesis
    by (simp add: scrapeURL_def scrape_catch_def js_def)
qed

text \<open>
  C2, as the claim states it, fails in two places. A rejected \<open>chromium.launch\<close> is awaited
  before the \<open>try\<close> block, so \<open>scrapeURL\<close> rejects with it; and the \<open>error\<close> field is the
  thrown error's message as it is, so an empty message gives an empty \<open>error\<close>.
\<close>

theorem C2_counterexample:
  "scrapeURL
     \<lparr>launch_result = Some (JsError (js ''browserType.launch: Executable does not exist'')),
      goto_result = None, waitForTimeout_result = None,
      evaluate_result = Inl (JsError (js ''unused'')), close_result = None\<rparr>
     (js ''https://example.com'')
   = Inl (JsError (js ''browserType.launch: Executable does not exist''))
   \<and> scrapeURL
     \<lparr>launch_result = None, goto_result = Some (JsError []), waitForTimeout_result = None,
      evaluate_result = Inl (JsError (js ''unused'')), close_result = None\<rparr>
     (js ''https://example.com'')
   = Inr (JObj [(js ''url'', JStr (js ''https://example.com'')), (js ''error'', JStr []),
                (js ''title'', JStr (js ''Error'')),
                (js ''bodyText'', JStr (js ''Failed to scrape: ''))])"
  by (simp add: scrapeURL_def scrape_try_def scrape_catch_def)

lemma scrape_loop_acc:
  "scrape_loop browser k urls acc = Inr snaps \<longleftrightarrow>
     (\<exists>new. snaps = acc @ new \<and> length new = length urls
        \<and> (\<forall>i<length urls. scrapeURL (browser (k + i) (urls ! i)) (urls ! i) = Inr (new ! i)))"
proof (induction urls arbitrary: k acc)
  case Nil
  then show ?case by auto
next
  case (Cons url urls)
  show ?case
  proof (cases "scrapeURL (browser k url) url")
    case (Inl e)
    then show ?thesis
      by (auto simp: length_Suc_conv)
  next
    case (Inr data)
    have "scrape_loop browser k (url # urls) acc = Inr snaps \<longleftrightarrow>
          (\<exists>new. snaps = (acc @ [data]) @ new \<and> length new = length urls
             \<and> (\<forall>i<length urls.
                  scrapeURL (browser (Suc k + i) (urls ! i)) (urls ! i) = Inr (new ! i)))"
      using Inr Cons.IH [of "Suc k" "acc @ [data]"] by simp
    also have "\<dots> \<longleftrightarrow>
          (\<exists>new. snaps = acc @ new \<and> length new = length (url # urls)
             \<and> (\<forall>i<length (url # urls).
                  scrapeURL (browser (k + i) ((url # urls) ! i)) ((url # urls) ! i)
                    = Inr (new ! i)))"
      (is "?L \<longleftrightarrow> ?R")
    proof
      assume ?L
      then obtain new where n: "snaps = (acc @ [data]) @ new" "length new = length urls"
        "\<forall>i<length urls. scrapeURL (browser (Suc k + i) (urls ! i)) (urls ! i) = Inr (new ! i)"
        by blast
      have "\<forall>i<length (url # urls).
              scrapeURL (browser (k + i) ((url # urls) ! i)) ((url # urls) ! i)
                = Inr ((data # new) ! i)"
        using n(3) Inr by (auto simp: nth_Cons split: nat.splits)
      with n(1,2) show ?R
        by (intro exI [of _ "data # new"]) simp
    next
      assume ?R
      then obtain new where n: "snaps = acc @ new" "length new = length (url # urls)"
        "\<forall>i<length (url # urls).
           scrapeURL (browser (k + i) ((url # urls) ! i)) ((url # urls) ! i) = Inr (new ! i)"
        by blast
      from n(2) obtain d new' where new: "new = d # new'" "length new' = length urls"
        by (auto simp: length_Suc_conv)
      from n(3) [rule_format, of 0] Inr new have d: "d = data"
        by simp
      have "\<forall>i<length urls.
              scrapeURL (browser (Suc k + i) (urls ! i)) (urls ! i) = Inr (new' ! i)"
      proof (intro allI impI)
        fix i assume "i < length urls"
        with n(3) [rule_format, of "Suc i"] new show
          "scrapeURL (browser (Suc k + i) (urls ! i)) (urls ! i) = Inr (new' ! i)"
          by simp
      qed
      with n(1) new d show ?L
        by (intro exI [of _ new']) simp
    qed
    finally show ?thesis .
  qed
qed

lemma scrape_loop_iff:
  "scrape_loop browser 0 urls [] = Inr snaps \<longleftrightarrow>
     length snaps = length urls
     \<and> (\<forall>i<length urls. scrapeURL (browser i (urls ! i)) (urls ! i) = Inr (snaps ! i))"
  by (simp add: scrape_loop_acc)

lemma scrapeURL_returns:
  "launch_result b = None \<Longrightarrow> close_result b = None \<Longrightarrow> \<exists>snap. scrapeURL b url = Inr snap"
  by (simp add: scrapeURL_def)

text \<open>
  C1, as the code has it: when the browser of every fetch is launched and closed without
  error, the loop of \<open>main\<close> hands on a snapshot sequence; the sequence has the length of
  the target sequence, and its \<open>i\<close>-th snapshot is what fetching the \<open>i\<close>-th target (call
  number \<open>i\<close>) returned.
\<close>

theorem C1_snapshots_one_to_one:
  assumes "\<forall>i<length urls. launch_result (browser i (urls ! i)) = None
                           \<and> close_result (browser i (urls ! i)) = None"
  shows "\<exists>snaps. scrape_loop browser 0 urls [] = Inr snaps
           \<and> length snaps = length urls
           \<and> (\<forall>i<length urls. scrapeURL (browser i (urls ! i)) (urls ! i) = Inr (snaps ! i))"
proof -
  define f where "f i = (case scrapeURL (browser i (urls ! i)) (urls ! i) of
      Inr snap \<Rightarrow> snap | Inl e \<Rightarrow> JObj [])" for i
  have f: "scrapeURL (browser i (urls ! i)) (urls ! i) = Inr (f i)" if "i < length urls" for i
  proof -
    from assms that obtain snap where "scrapeURL (browser i (urls ! i)) (urls ! i) = Inr snap"
      using scrapeURL_returns by blast
    then show ?thesis
      by (simp add: f_def)
  qed
  let ?snaps = "map f [0..<length urls]"
  have a: "length ?snaps = length urls"
    by simp
  have b: "\<forall>i<length urls. scrapeURL (browser i (urls ! i)) (urls ! i) = Inr (?snaps ! i)"
    using f by simp
  from a b have "scrape_loop browser 0 urls [] = Inr ?snaps"
    by (subst scrape_loop_iff) blast
  with a b show ?thesis
    by blast
qed

theorem C1_snapshots_one_to_one_witness:
  "scrape_loop
     (\<lambda>k url. \<lparr>launch_result = None,
               goto_result = (if k = 0 then Some (JsError (js ''page.goto: Timeout'')) else None),
               waitForTimeout_result = None,
               evaluate_result = Inr \<lparr>document_title = js ''T'', body_innerText = Inr url,
                 price_element = None, temp_elements = [], location_href = url\<rparr>,
               close_result = None\<rparr>)
     0 [js ''a'', js ''b''] []
   = Inr [scrape_catch (js ''a'') (JsError (js ''page.goto: Timeout'')),
          JObj [(js ''title'', JStr (js ''T'')), (js ''bodyText'', JStr (js ''b'')),
                (js ''structuredData'', JObj []), (js ''url'', JStr (js ''b''))]]"
proof -
  let ?B = "\<lambda>k url. \<lparr>launch_result = None,
               goto_result = (if k = 0 then Some (JsError (js ''page.goto: Timeout'')) else None),
               waitForTimeout_result = None,
               evaluate_result = Inr \<lparr>document_title = js ''T'', body_innerText = Inr url,
                 price_element = None, temp_elements = [], location_href = url\<rparr>,
               close_result = None\<rparr>"
  let ?urls = "[js ''a'', js ''b'']"
  have "\<forall>i<length ?urls. launch_result (?B i (?urls ! i)) = None
                           \<and> close_result (?B i (?urls ! i)) = None"
    by simp
  from C1_snapshots_one_to_one [of ?urls ?B, OF this] obtain snaps where
    s: "scrape_loop ?B 0 ?urls [] = Inr snaps" "length snaps = 2"
       "\<forall>i<2. scrapeURL (?B i (?urls ! i)) (?urls ! i) = Inr (snaps ! i)"
    by auto
  from s(3) [rule_format, of 0]
  have 0: "snaps ! 0 = scrape_catch (js ''a'') (JsError (js ''page.goto: Timeout''))"
    by (simp add: scrapeURL_def scrape_try_def)
  from s(3) [rule_format, of 1]
  have 1: "snaps ! 1 = JObj [(js ''title'', JStr (js ''T'')), (js ''bodyText'', JStr (js ''b'')),
                (js ''structuredData'', JObj []), (js ''url'', JStr (js ''b''))]"
    by (simp add: scrapeURL_def scrape_try_def page_function_def structuredData_of_def
          substring_from_0 js_def)
  from s(2) obtain x y where "snaps = [x, y]"
    by (auto simp: length_Suc_conv numeral_2_eq_2)
  with 0 1 s(1) show ?thesis
    by simp
qed

text \<open>
  C1, as the claim states it, fails: \<open>scrapeURL\<close> rejects when \<open>chromium.launch\<close> does,
  the loop has no \<open>catch\<close>, and the run ends without any snapshot sequence.
\<close>

theorem C1_counterexample:
  "scrape_loop
     (\<lambda>k url. \<lparr>launch_result = Some (JsError (js ''browserType.launch: Executable does not exist'')),
               goto_result = None, waitForTimeout_result = None,
               evaluate_result = Inl (JsError (js ''unused'')), close_result = None\<rparr>)
     0 [js ''https://example.com''] []
   = Inl (JsError (js ''browserType.launch: Executable does not exist''))"
  by (simp add: scrapeURL_def)


section \<open>Properties of the synthesizer\<close>

lemma fallbackHTML_banner:
  \<open>fallbackHTML date error scrapedData =
     (fallback_head @ date @ js ''</h1>'' @ [LF] @ js ''    '')
     @ js ''<div class="error">''
     @ ([LF] @ js ''        <h2>Error generating report</h2>'' @ [LF] @ js ''        <p>''
        @ message error @ fallback_data @ JSON_stringify (JArr scrapedData) @ fallback_tail)\<close>
  by (simp add: fallbackHTML_def fallback_banner_def js_def)

lemma fallbackHTML_message:
  \<open>fallbackHTML date error scrapedData =
     (fallback_head @ date @ js ''</h1>'' @ [LF] @ js ''    <div class="error">'' @ [LF]
      @ js ''        <h2>Error generating report</h2>'' @ [LF] @ js ''        '')
     @ (js ''<p>'' @ message error @ js ''</p>'')
     @ ([LF] @ js ''    </div>'' @ [LF] @ js ''    <div class="data-section">'' @ [LF]
        @ js ''        <h2>Raw Data</h2>'' @ [LF] @ js ''        <pre>''
        @ JSON_stringify (JArr scrapedData) @ fallback_tail)\<close>
  by (simp add: fallbackHTML_def fallback_banner_def fallback_data_def js_def)

lemma fallbackHTML_dump:
  \<open>fallbackHTML date error scrapedData =
     (fallback_head @ date @ fallback_banner @ message error @ js ''</p>'' @ [LF]
      @ js ''    </div>'' @ [LF] @ js ''    <div class="data-section">'' @ [LF]
      @ js ''        <h2>Raw Data</h2>'' @ [LF] @ js ''        '')
     @ (js ''<pre>'' @ JSON_stringify (JArr scrapedData) @ js ''</pre>'')
     @ ([LF] @ js ''    </div>'' @ [LF] @ js ''</body>'' @ [LF] @ js ''</html>'' @ [LF]
        @ js ''    '')\<close>
  by (simp add: fallbackHTML_def fallback_data_def fallback_tail_def js_def)

text \<open>
  C3, as the code has it: when the remote call throws (the request rejects, or reading
  the content from the response throws), \<open>generateReport\<close> returns the fallback document;
  the document holds the error banner with the failure's message in a paragraph, and
  inside a \<open>pre\<close> element the serialization \<open>JSON.stringify(scrapedData, null, 2)\<close> of the
  whole snapshot sequence: \<open>[]\<close> for no snapshot, otherwise the serialized snapshots in
  order, each on a new line indented by two spaces, separated by commas, between brackets.
  A run whose configuration and fetches succeeded goes on to write this document to
  \<open>report.html\<close>. \<open>generateReport\<close> gives no document in one case only: a response whose
  content is null.
\<close>

theorem C3_fallback_report:
  assumes \<open>api = CreateRejected error \<or> api = ReadFailed error\<close>
  shows \<open>generateReport api date scrapedData systemPrompt
           = Some (fallbackHTML date error scrapedData)
         \<and> sublist (js ''<div class="error">'') (fallbackHTML date error scrapedData)
         \<and> sublist (js ''<p>'' @ message error @ js ''</p>'')
              (fallbackHTML date error scrapedData)
         \<and> sublist (js ''<pre>'' @ JSON_stringify (JArr scrapedData) @ js ''</pre>'')
              (fallbackHTML date error scrapedData)
         \<and> JSON_stringify (JArr scrapedData)
           = (if scrapedData = [] then js ''[]''
              else js ''['' @ [LF] @ js ''  ''
                   @ join (js '','' @ [LF] @ js ''  '') (map (SerializeJSON (js ''  '')) scrapedData)
                   @ [LF] @ js '']'')
         \<and> (\<forall>w d urls.
               api_response w = api \<and> now w = date \<and> systemprompt_file w = Inr systemPrompt
               \<and> loadTargetURLs (env_TARGET_URLS w) (systemprompt_file w) = Inr urls
               \<and> scrape_loop (browser_sessions w) 0 urls [] = Inr scrapedData
               \<longrightarrow> hd (trace (main w d))
                     = WriteFile report_html (fallbackHTML date error scrapedData)
                   \<and> trace (main w d) \<noteq> [])
         \<and> (\<forall>api'. generateReport api' date scrapedData systemPrompt = None
                      \<longleftrightarrow> api' = Content None)\<close>
proof -
  have g: "generateReport api date scrapedData systemPrompt
             = Some (fallbackHTML date error scrapedData)"
    using assms by (auto simp: generateReport_def)
  have b: \<open>sublist (js ''<div class="error">'') (fallbackHTML date error scrapedData)\<close>
    by (subst fallbackHTML_banner) (rule sublist_appendI)
  have m: "sublist (js ''<p>'' @ message error @ js ''</p>'')
             (fallbackHTML date error scrapedData)"
    by (subst fallbackHTML_message) (rule sublist_appendI)
  have j: "sublist (js ''<pre>'' @ JSON_stringify (JArr scrapedData) @ js ''</pre>'')
             (fallbackHTML date error scrapedData)"
    by (subst fallbackHTML_dump) (rule sublist_appendI)
  have s: "JSON_stringify (JArr scrapedData)
           = (if scrapedData = [] then js ''[]''
              else js ''['' @ [LF] @ js ''  ''
                   @ join (js '','' @ [LF] @ js ''  '') (map (SerializeJSON (js ''  '')) scrapedData)
                   @ [LF] @ js '']'')"
    by (simp add: JSON_stringify_def gap_def)
  have w: "hd (trace (main w d)) = WriteFile report_html (fallbackHTML date error scrapedData)
           \<and> trace (main w d) \<noteq> []"
    if "api_response w = api" "now w = date" "systemprompt_file w = Inr systemPrompt"
      "loadTargetURLs (env_TARGET_URLS w) (systemprompt_file w) = Inr urls"
      "scrape_loop (browser_sessions w) 0 urls [] = Inr scrapedData" for w d urls
    using that g
    by (auto simp: main_def loadSystemPrompt_def split: option.splits prod.splits)
  have n: "generateReport api' date scrapedData systemPrompt = None \<longleftrightarrow> api' = Content None"
    for api'
    by (cases api') (simp_all add: generateReport_def)
  from g b m j s w n show ?thesis
    by blast
qed

theorem C3_fallback_report_witness:
  \<open>generateReport (CreateRejected (JsError (js ''429 quota''))) (js ''2025/1/1 9:00:00'')
      [scrape_catch (js ''u'') (JsError (js ''page.goto: "u"'' @ [LF] @ js ''Timeout''))] (js ''prompt'')
     = Some (fallbackHTML (js ''2025/1/1 9:00:00'') (JsError (js ''429 quota'')) [scrape_catch (js ''u'') (JsError (js ''page.goto: "u"'' @ [LF] @ js ''Timeout''))])
   \<and> sublist (js ''<p>'' @ js ''429 quota'' @ js ''</p>'') (fallbackHTML (js ''2025/1/1 9:00:00'') (JsError (js ''429 quota'')) [scrape_catch (js ''u'') (JsError (js ''page.goto: "u"'' @ [LF] @ js ''Timeout''))])
   \<and> sublist (js ''<pre>'' @ (js ''['' @ [LF] @ js ''  {'' @ [LF]
      @ js ''    "url": "u",'' @ [LF]
      @ js ''    "error": "page.goto: '' @ [0x5C, 0x22] @ js ''u'' @ [0x5C, 0x22, 0x5C, 0x6E]
      @ js ''Timeout",'' @ [LF]
      @ js ''    "title": "Error",'' @ [LF]
      @ js ''    "bodyText": "Failed to scrape: page.goto: '' @ [0x5C, 0x22] @ js ''u''
      @ [0x5C, 0x22, 0x5C, 0x6E] @ js ''Timeout"'' @ [LF]
      @ js ''  }'' @ [LF] @ js '']'') @ js ''</pre>'') (fallbackHTML (js ''2025/1/1 9:00:00'') (JsError (js ''429 quota'')) [scrape_catch (js ''u'') (JsError (js ''page.goto: "u"'' @ [LF] @ js ''Timeout''))])
   \<and> trace (main \<lparr>env_TARGET_URLS = Some (js ''u''), systemprompt_file = Inr (js ''prompt''),
       browser_sessions = (\<lambda>k url. \<lparr>launch_result = None,
          goto_result = Some (JsError (js ''page.goto: "u"'' @ [LF] @ js ''Timeout'')),
          waitForTimeout_result = None, evaluate_result = Inl (JsError (js ''unused'')),
          close_result = None\<rparr>),
       api_response = CreateRejected (JsError (js ''429 quota'')), now = js ''2025/1/1 9:00:00'',
       writeFile_result = None,
       renderer = \<lparr>render_launch_result = None, setContent_result = None,
         render_waitForTimeout_result = None, screenshot_result = Inr [1, 2, 3],
         render_close_result = None\<rparr>\<rparr> Map.empty)
     = [WriteFile report_html (fallbackHTML (js ''2025/1/1 9:00:00'') (JsError (js ''429 quota'')) [scrape_catch (js ''u'') (JsError (js ''page.goto: "u"'' @ [LF] @ js ''Timeout''))]), HtmlToPNG (fallbackHTML (js ''2025/1/1 9:00:00'') (JsError (js ''429 quota'')) [scrape_catch (js ''u'') (JsError (js ''page.goto: "u"'' @ [LF] @ js ''Timeout''))]) report_png]
   \<and> exit_code (main \<lparr>env_TARGET_URLS = Some (js ''u''), systemprompt_file = Inr (js ''prompt''),
       browser_sessions = (\<lambda>k url. \<lparr>launch_result = None,
          goto_result = Some (JsError (js ''page.goto: "u"'' @ [LF] @ js ''Timeout'')),
          waitForTimeout_result = None, evaluate_result = Inl (JsError (js ''unused'')),
          close_result = None\<rparr>),
       api_response = CreateRejected (JsError (js ''429 quota'')), now = js ''2025/1/1 9:00:00'',
       writeFile_result = None,
       renderer = \<lparr>render_launch_result = None, setContent_result = None,
         render_waitForTimeout_result = None, screenshot_result = Inr [1, 2, 3],
         render_close_result = None\<rparr>\<rparr> Map.empty) = 0\<close>
proof -
  let ?w = \<open>\<lparr>env_TARGET_URLS = Some (js ''u''), systemprompt_file = Inr (js ''prompt''),
       browser_sessions = (\<lambda>k url. \<lparr>launch_result = None,
          goto_result = Some (JsError (js ''page.goto: "u"'' @ [LF] @ js ''Timeout'')),
          waitForTimeout_result = None, evaluate_result = Inl (JsError (js ''unused'')),
          close_result = None\<rparr>),
       api_response = CreateRejected (JsError (js ''429 quota'')), now = js ''2025/1/1 9:00:00'',
       writeFile_result = None,
       renderer = \<lparr>render_launch_result = None, setContent_result = None,
         render_waitForTimeout_result = None, screenshot_result = Inr [1, 2, 3],
         render_close_result = None\<rparr>\<rparr>\<close>
  have u: "loadTargetURLs (env_TARGET_URLS ?w) (systemprompt_file ?w) = Inr [js ''u'']"
    by (simp add: js_def trim_def is_space_def is_white_space_def is_line_terminator_def
          COMMA_def)
  have l: \<open>scrape_loop (browser_sessions ?w) 0 [js ''u''] [] = Inr [scrape_catch (js ''u'') (JsError (js ''page.goto: "u"'' @ [LF] @ js ''Timeout''))]\<close>
    by (simp add: scrapeURL_def scrape_try_def)
  have r: "htmlToPNG (renderer ?w) h report_png dd = (None, dd(report_png \<mapsto> Image [1, 2, 3]))"
    for h dd
    by (simp add: htmlToPNG_def)
  have d: \<open>JSON_stringify (JArr [scrape_catch (js ''u'') (JsError (js ''page.goto: "u"'' @ [LF] @ js ''Timeout''))]) = (js ''['' @ [LF] @ js ''  {'' @ [LF]
      @ js ''    "url": "u",'' @ [LF]
      @ js ''    "error": "page.goto: '' @ [0x5C, 0x22] @ js ''u'' @ [0x5C, 0x22, 0x5C, 0x6E]
      @ js ''Timeout",'' @ [LF]
      @ js ''    "title": "Error",'' @ [LF]
      @ js ''    "bodyText": "Failed to scrape: page.goto: '' @ [0x5C, 0x22] @ js ''u''
      @ [0x5C, 0x22, 0x5C, 0x6E] @ js ''Timeout"'' @ [LF]
      @ js ''  }'' @ [LF] @ js '']'')\<close>
    by code_simp
  note C3_fallback_report [OF disjI1 [OF refl], where error = "JsError (js ''429 quota'')"
      and date = "js ''2025/1/1 9:00:00''" and systemPrompt = "js ''prompt''"
      and scrapedData = \<open>[scrape_catch (js ''u'') (JsError (js ''page.goto: "u"'' @ [LF] @ js ''Timeout''))]\<close>,
      unfolded js_error.sel]
  then have c: \<open>generateReport (CreateRejected (JsError (js ''429 quota''))) (js ''2025/1/1 9:00:00'') [scrape_catch (js ''u'') (JsError (js ''page.goto: "u"'' @ [LF] @ js ''Timeout''))] (js ''prompt'') = Some (fallbackHTML (js ''2025/1/1 9:00:00'') (JsError (js ''429 quota'')) [scrape_catch (js ''u'') (JsError (js ''page.goto: "u"'' @ [LF] @ js ''Timeout''))])\<close>
    and m: \<open>sublist (js ''<p>'' @ js ''429 quota'' @ js ''</p>'') (fallbackHTML (js ''2025/1/1 9:00:00'') (JsError (js ''429 quota'')) [scrape_catch (js ''u'') (JsError (js ''page.goto: "u"'' @ [LF] @ js ''Timeout''))])\<close>
    and j: \<open>sublist (js ''<pre>'' @ JSON_stringify (JArr [scrape_catch (js ''u'') (JsError (js ''page.goto: "u"'' @ [LF] @ js ''Timeout''))]) @ js ''</pre>'') (fallbackHTML (js ''2025/1/1 9:00:00'') (JsError (js ''429 quota'')) [scrape_catch (js ''u'') (JsError (js ''page.goto: "u"'' @ [LF] @ js ''Timeout''))])\<close>
    by blast+
  have t: \<open>trace (main ?w Map.empty) = [WriteFile report_html (fallbackHTML (js ''2025/1/1 9:00:00'') (JsError (js ''429 quota'')) [scrape_catch (js ''u'') (JsError (js ''page.goto: "u"'' @ [LF] @ js ''Timeout''))]), HtmlToPNG (fallbackHTML (js ''2025/1/1 9:00:00'') (JsError (js ''429 quota'')) [scrape_catch (js ''u'') (JsError (js ''page.goto: "u"'' @ [LF] @ js ''Timeout''))]) report_png]
           \<and> exit_code (main ?w Map.empty) = 0\<close>
    unfolding main_def using u l c r by (simp add: loadSystemPrompt_def)
  from c m j t show ?thesis
    by (simp only: d)
qed

text \<open>
  C3, as the claim states it, fails on a response whose \<open>message.content\<close> is null:
  nothing is thrown inside \<open>generateReport\<close>, which returns null instead of a fallback
  document; \<open>fs.writeFile\<close> throws on it, and the run ends with exit code 1, nothing
  written and the renderer never called.
\<close>

theorem C3_counterexample:
  \<open>generateReport (Content None) (js ''2025/1/1 9:00:00'') [scrape_catch (js ''u'') (JsError (js ''page.goto: "u"'' @ [LF] @ js ''Timeout''))] (js ''prompt'') = None
   \<and> trace (main \<lparr>env_TARGET_URLS = Some (js ''u''), systemprompt_file = Inr (js ''prompt''),
       browser_sessions = (\<lambda>k url. \<lparr>launch_result = None,
          goto_result = Some (JsError (js ''page.goto: "u"'' @ [LF] @ js ''Timeout'')),
          waitForTimeout_result = None, evaluate_result = Inl (JsError (js ''unused'')),
          close_result = None\<rparr>),
       api_response = Content None, now = js ''2025/1/1 9:00:00'',
       writeFile_result = None,
       renderer = \<lparr>render_launch_result = None, setContent_result = None,
         render_waitForTimeout_result = None, screenshot_result = Inr [1, 2, 3],
         render_close_result = None\<rparr>\<rparr> Map.empty) = []
   \<and> exit_code (main \<lparr>env_TARGET_URLS = Some (js ''u''), systemprompt_file = Inr (js ''prompt''),
       browser_sessions = (\<lambda>k url. \<lparr>launch_result = None,
          goto_result = Some (JsError (js ''page.goto: "u"'' @ [LF] @ js ''Timeout'')),
          waitForTimeout_result = None, evaluate_result = Inl (JsError (js ''unused'')),
          close_result = None\<rparr>),
       api_response = Content None, now = js ''2025/1/1 9:00:00'',
       writeFile_result = None,
       renderer = \<lparr>render_launch_result = None, setContent_result = None,
         render_waitForTimeout_result = None, screenshot_result = Inr [1, 2, 3],
         render_close_result = None\<rparr>\<rparr> Map.empty) = 1
   \<and> final_disk (main \<lparr>env_TARGET_URLS = Some (js ''u''), systemprompt_file = Inr (js ''prompt''),
       browser_sessions = (\<lambda>k url. \<lparr>launch_result = None,
          goto_result = Some (JsError (js ''page.goto: "u"'' @ [LF] @ js ''Timeout'')),
          waitForTimeout_result = None, evaluate_result = Inl (JsError (js ''unused'')),
          close_result = None\<rparr>),
       api_response = Content None, now = js ''2025/1/1 9:00:00'',
       writeFile_result = None,
       renderer = \<lparr>render_launch_result = None, setContent_result = None,
         render_waitForTimeout_result = None, screenshot_result = Inr [1, 2, 3],
         render_close_result = None\<rparr>\<rparr> Map.empty) report_html = None\<close>
proof -
  let ?w = \<open>\<lparr>env_TARGET_URLS = Some (js ''u''), systemprompt_file = Inr (js ''prompt''),
       browser_sessions = (\<lambda>k url. \<lparr>launch_result = None,
          goto_result = Some (JsError (js ''page.goto: "u"'' @ [LF] @ js ''Timeout'')),
          waitForTimeout_result = None, evaluate_result = Inl (JsError (js ''unused'')),
          close_result = None\<rparr>),
       api_response = Content None, now = js ''2025/1/1 9:00:00'',
       writeFile_result = None,
       renderer = \<lparr>render_launch_result = None, setContent_result = None,
         render_waitForTimeout_result = None, screenshot_result = Inr [1, 2, 3],
         render_close_result = None\<rparr>\<rparr>\<close>
  have u: "loadTargetURLs (env_TARGET_URLS ?w) (systemprompt_file ?w) = Inr [js ''u'']"
    by (simp add: js_def trim_def is_space_def is_white_space_def is_line_terminator_def
          COMMA_def)
  have l: \<open>scrape_loop (browser_sessions ?w) 0 [js ''u''] [] = Inr [scrape_catch (js ''u'') (JsError (js ''page.goto: "u"'' @ [LF] @ js ''Timeout''))]\<close>
    by (simp add: scrapeURL_def scrape_try_def)
  have g: \<open>generateReport (Content None) (js ''2025/1/1 9:00:00'') [scrape_catch (js ''u'') (JsError (js ''page.goto: "u"'' @ [LF] @ js ''Timeout''))] (js ''prompt'') = None\<close>
    by (simp add: generateReport_def)
  have \<open>main ?w Map.empty = \<lparr>trace = [], final_disk = Map.empty, exit_code = 1\<rparr>\<close>
    unfolding main_def using u l g by (simp add: loadSystemPrompt_def)
  with g show ?thesis
    by simp
qed

text \<open>
  C4, as the claim states it, fails: the heading of the fallback document holds
  \<open>new Date().toLocaleString('ja-JP')\<close>, so two runs with the same snapshot sequence and the
  same failure, one second apart, give different documents.
\<close>

theorem C4_counterexample:
  "generateReport (CreateRejected (JsError (js ''429 quota''))) (js ''2025/1/1 9:00:00'') []
     (js ''prompt'')
   \<noteq> generateReport (CreateRejected (JsError (js ''429 quota''))) (js ''2025/1/1 9:00:01'') []
     (js ''prompt'')"
  by (simp add: generateReport_def fallbackHTML_def js_def)

text \<open>
  C4, as the code has it: the fallback document is a fixed head, the timestamp, and a
  rest that is determined by the failure's message and the snapshot sequence alone. Two
  runs with the same snapshot sequence and the same failure message give documents that
  differ in the timestamp only, and the same document when the timestamps agree; the
  system prompt and the kind of failure play no part.
\<close>

theorem C4_fallback_deterministic_up_to_timestamp:
  assumes "api1 = CreateRejected e1 \<or> api1 = ReadFailed e1"
    and "api2 = CreateRejected e2 \<or> api2 = ReadFailed e2"
    and "message e1 = message e2"
  shows "generateReport api1 date1 scrapedData systemPrompt1
           = Some (fallback_head @ date1 @ fallback_banner @ message e1 @ fallback_data
                   @ JSON_stringify (JArr scrapedData) @ fallback_tail)
         \<and> generateReport api2 date2 scrapedData systemPrompt2
           = Some (fallback_head @ date2 @ fallback_banner @ message e1 @ fallback_data
                   @ JSON_stringify (JArr scrapedData) @ fallback_tail)
         \<and> (date1 = date2 \<longrightarrow>
              generateReport api1 date1 scrapedData systemPrompt1
              = generateReport api2 date2 scrapedData systemPrompt2)"
  using assms by (auto simp: generateReport_def fallbackHTML_def)

theorem C4_fallback_deterministic_up_to_timestamp_witness:
  "generateReport (CreateRejected (JsError (js ''429 quota''))) (js ''2025/1/1 9:00:00'') []
     (js ''prompt one'')
   = generateReport (ReadFailed (JsError (js ''429 quota''))) (js ''2025/1/1 9:00:00'') []
     (js ''prompt two'')"
  using C4_fallback_deterministic_up_to_timestamp
    [of "CreateRejected (JsError (js ''429 quota''))" "JsError (js ''429 quota'')"
        "ReadFailed (JsError (js ''429 quota''))" "JsError (js ''429 quota'')"
        "js ''2025/1/1 9:00:00''" "[]" "js ''prompt one''" "js ''2025/1/1 9:00:00''"
        "js ''prompt two''"]
  by simp


section \<open>Properties of the orchestrator\<close>

lemma htmlToPNG_other_path:
  "q \<noteq> outputPath \<Longrightarrow> snd (htmlToPNG r htmlContent outputPath d) q = d q"
  by (simp add: htmlToPNG_def Let_def split: option.splits sum.splits)

text \<open>
  C9: in every run, a call of \<open>htmlToPNG\<close> comes after the call of \<open>fs.writeFile\<close> that
  wrote the same document to \<open>report.html\<close>, and when the run ends \<open>report.html\<close> holds
  that document, whether the rendering succeeded or threw.
\<close>

theorem C9_report_persisted_before_render:
  "trace (main w d) = before @ HtmlToPNG html p # after \<Longrightarrow>
     WriteFile report_html html \<in> set before
     \<and> final_disk (main w d) report_html = Some (Text html)"
proof -
  assume t: "trace (main w d) = before @ HtmlToPNG html p # after"
  have shape: "trace (main w d) = [] \<or> (\<exists>h. trace (main w d) = [WriteFile report_html h])
      \<or> (\<exists>h. trace (main w d) = [WriteFile report_html h, HtmlToPNG h report_png]
            \<and> final_disk (main w d)
              = snd (htmlToPNG (renderer w) h report_png (d(report_html \<mapsto> Text h))))"
    by (simp add: main_def split: sum.splits option.splits prod.splits)
  then consider "trace (main w d) = []"
    | h where "trace (main w d) = [WriteFile report_html h]"
    | h where "trace (main w d) = [WriteFile report_html h, HtmlToPNG h report_png]"
        "final_disk (main w d)
           = snd (htmlToPNG (renderer w) h report_png (d(report_html \<mapsto> Text h)))"
    by blast
  then show ?thesis
  proof cases
    case 1
    with t show ?thesis by simp
  next
    case 2
    with t show ?thesis by (auto simp: append_eq_Cons_conv Cons_eq_append_conv)
  next
    case 3
    from 3(1) t have "before = [WriteFile report_html h] \<and> html = h"
      by (auto simp: append_eq_Cons_conv Cons_eq_append_conv)
    with 3(2) show ?thesis
      by (simp add: htmlToPNG_other_path)
  qed
qed

theorem C9_report_persisted_before_render_witness:
  \<open>trace (main \<lparr>env_TARGET_URLS = Some (js ''u''), systemprompt_file = Inr (js ''prompt''),
       browser_sessions = (\<lambda>k url. \<lparr>launch_result = None, goto_result = Some (JsError (js ''page.goto: Timeout'')),
          waitForTimeout_result = None, evaluate_result = Inl (JsError (js ''unused'')),
          close_result = None\<rparr>),
       api_response = CreateRejected (JsError (js ''429 quota'')), now = js ''2025/1/1 9:00:00'',
       writeFile_result = None,
       renderer = \<lparr>render_launch_result = None, setContent_result = None,
         render_waitForTimeout_result = None, screenshot_result = Inl (JsError (js ''page.screenshot: Target closed'')),
         render_close_result = None\<rparr>\<rparr> Map.empty)
     = [WriteFile report_html (fallbackHTML (js ''2025/1/1 9:00:00'') (JsError (js ''429 quota'')) [scrape_catch (js ''u'') (JsError (js ''page.goto: Timeout''))])] @ HtmlToPNG (fallbackHTML (js ''2025/1/1 9:00:00'') (JsError (js ''429 quota'')) [scrape_catch (js ''u'') (JsError (js ''page.goto: Timeout''))]) report_png # []
   \<and> exit_code (main \<lparr>env_TARGET_URLS = Some (js ''u''), systemprompt_file = Inr (js ''prompt''),
       browser_sessions = (\<lambda>k url. \<lparr>launch_result = None, goto_result = Some (JsError (js ''page.goto: Timeout'')),
          waitForTimeout_result = None, evaluate_result = Inl (JsError (js ''unused'')),
          close_result = None\<rparr>),
       api_response = CreateRejected (JsError (js ''429 quota'')), now = js ''2025/1/1 9:00:00'',
       writeFile_result = None,
       renderer = \<lparr>render_launch_result = None, setContent_result = None,
         render_waitForTimeout_result = None, screenshot_result = Inl (JsError (js ''page.screenshot: Target closed'')),
         render_close_result = None\<rparr>\<rparr> Map.empty) = 1
   \<and> final_disk (main \<lparr>env_TARGET_URLS = Some (js ''u''), systemprompt_file = Inr (js ''prompt''),
       browser_sessions = (\<lambda>k url. \<lparr>launch_result = None, goto_result = Some (JsError (js ''page.goto: Timeout'')),
          waitForTimeout_result = None, evaluate_result = Inl (JsError (js ''unused'')),
          close_result = None\<rparr>),
       api_response = CreateRejected (JsError (js ''429 quota'')), now = js ''2025/1/1 9:00:00'',
       writeFile_result = None,
       renderer = \<lparr>render_launch_result = None, setContent_result = None,
         render_waitForTimeout_result = None, screenshot_result = Inl (JsError (js ''page.screenshot: Target closed'')),
         render_close_result = None\<rparr>\<rparr> Map.empty) report_html = Some (Text (fallbackHTML (js ''2025/1/1 9:00:00'') (JsError (js ''429 quota'')) [scrape_catch (js ''u'') (JsError (js ''page.goto: Timeout''))]))\<close>
proof -
  let ?w = \<open>\<lparr>env_TARGET_URLS = Some (js ''u''), systemprompt_file = Inr (js ''prompt''),
       browser_sessions = (\<lambda>k url. \<lparr>launch_result = None, goto_result = Some (JsError (js ''page.goto: Timeout'')),
          waitForTimeout_result = None, evaluate_result = Inl (JsError (js ''unused'')),
          close_result = None\<rparr>),
       api_response = CreateRejected (JsError (js ''429 quota'')), now = js ''2025/1/1 9:00:00'',
       writeFile_result = None,
       renderer = \<lparr>render_launch_result = None, setContent_result = None,
         render_waitForTimeout_result = None, screenshot_result = Inl (JsError (js ''page.screenshot: Target closed'')),
         render_close_result = None\<rparr>\<rparr>\<close>
  have u: "loadTargetURLs (env_TARGET_URLS ?w) (systemprompt_file ?w) = Inr [js ''u'']"
    by (simp add: js_def trim_def is_space_def is_white_space_def is_line_terminator_def
          COMMA_def)
  have l: "scrape_loop (browser_sessions ?w) 0 [js ''u''] [] = Inr [scrape_catch (js ''u'') (JsError (js ''page.goto: Timeout''))]"
    by (simp add: scrapeURL_def scrape_try_def)
  have r: "htmlToPNG (renderer ?w) h report_png dd
             = (Some (JsError (js ''page.screenshot: Target closed'')), dd)" for h dd
    by (simp add: htmlToPNG_def)
  have t: \<open>trace (main ?w Map.empty)
             = [WriteFile report_html (fallbackHTML (js ''2025/1/1 9:00:00'') (JsError (js ''429 quota'')) [scrape_catch (js ''u'') (JsError (js ''page.goto: Timeout''))])] @ HtmlToPNG (fallbackHTML (js ''2025/1/1 9:00:00'') (JsError (js ''429 quota'')) [scrape_catch (js ''u'') (JsError (js ''page.goto: Timeout''))]) report_png # []
           \<and> exit_code (main ?w Map.empty) = 1\<close>
    unfolding main_def using u l r by (simp add: loadSystemPrompt_def generateReport_def)
  from t C9_report_persisted_before_render
    [of ?w Map.empty \<open>[WriteFile report_html (fallbackHTML (js ''2025/1/1 9:00:00'') (JsError (js ''429 quota'')) [scrape_catch (js ''u'') (JsError (js ''page.goto: Timeout''))])]\<close> \<open>(fallbackHTML (js ''2025/1/1 9:00:00'') (JsError (js ''429 quota'')) [scrape_catch (js ''u'') (JsError (js ''page.goto: Timeout''))])\<close> report_png "[]"]
  show ?thesis
    by blast
qed

section \<open>Properties of the configuration loader\<close>

lemma split_no_sep: "sep \<notin> set s \<Longrightarrow> split sep s = [s]"
  by (induction s) auto

lemma split_append_sep: "sep \<notin> set a \<Longrightarrow> split sep (a @ sep # r) = a # split sep r"
  by (induction a) auto

lemma loadTargetURLs_env:
  "s \<noteq> [] \<Longrightarrow> loadTargetURLs (Some s) file = Inr (map trim (split COMMA s))"
  by (cases s) simp_all

text \<open>
  C5: when \<open>TARGET_URLS\<close> is \<open>a,b\<close>, with no comma inside \<open>a\<close> or \<open>b\<close>, the targets are
  \<open>a\<close> and \<open>b\<close>, each trimmed, whatever reading the prompt template gives, also when it
  cannot be read.
\<close>

theorem C5_env_override:
  assumes "COMMA \<notin> set a" and "COMMA \<notin> set b"
  shows "loadTargetURLs (Some (a @ [COMMA] @ b)) file = Inr [trim a, trim b]"
  using assms by (simp add: loadTargetURLs_env split_append_sep split_no_sep)

theorem C5_env_override_witness:
  "loadTargetURLs (Some (js ''https://a.example '' @ [COMMA] @ js '' https://b.example''))
     (Inl (JsError (js ''ENOENT'')))
   = Inr [js ''https://a.example'', js ''https://b.example'']"
proof -
  have "COMMA \<notin> set (js ''https://a.example '')" "COMMA \<notin> set (js '' https://b.example'')"
    by (simp_all add: js_def COMMA_def)
  from C5_env_override [OF this, of "Inl (JsError (js ''ENOENT''))"] show ?thesis
    by (simp add: trim_def is_space_def is_white_space_def is_line_terminator_def js_def)
qed

subsection \<open>The matcher on the parts of the patterns\<close>

lemma advance_0 [simp]: "advance 0 x = x"
  by (simp add: advance_def)

lemma advance_advance [simp]: "advance k (advance j x) = advance (j + k) x"
  by (simp add: advance_def add.commute add.left_commute)

lemma rest_advance [simp]: "rest (advance k x) = drop k (rest x)"
  by (simp add: advance_def)

lemma pos_advance [simp]: "pos (advance k x) = pos x + k"
  by (simp add: advance_def)

lemma captures_advance [simp]: "captures (advance k x) = captures x"
  by (simp add: advance_def)

lemma matcher_Atom:
  "matcher (Atom a) x =
     (case rest x of [] \<Rightarrow> [] | c # cs \<Rightarrow> if atom_matches a c then [advance 1 x] else [])"
  by (simp add: advance_def split: list.splits)

lemma matcher_lits:
  "matcher (lits w) x = (if prefix w (rest x) then [advance (length w) x] else [])"
proof (induction w arbitrary: x)
  case Nil
  then show ?case by simp
next
  case (Cons c w)
  show ?case
  proof (cases "rest x")
    case Nil
    then show ?thesis by simp
  next
    case (Cons d ds)
    then show ?thesis
      using Cons.IH [of "advance 1 x"]
      by (auto simp: matcher_Atom simp del: matcher.simps(2))
  qed
qed

lemma star_unfold_Atom:
  "star (matcher (Atom a)) x =
     (case rest x of
        [] \<Rightarrow> [x]
      | c # cs \<Rightarrow> if atom_matches a c then star (matcher (Atom a)) (advance 1 x) @ [x] else [x])"
  by (subst star.simps) (simp add: matcher_Atom split: list.splits del: matcher.simps(2))

lemma seq_star_Atom:
  "matcher (Seq (Star (Atom a)) r) x =
     (case rest x of
        [] \<Rightarrow> matcher r x
      | c # cs \<Rightarrow>
          if atom_matches a c then matcher (Seq (Star (Atom a)) r) (advance 1 x) @ matcher r x
          else matcher r x)"
  by (simp del: matcher.simps(2) add: star_unfold_Atom [of a x] split: list.splits)


lemma LF_props [simp]: "is_line_terminator LF" "is_space LF"
  by (simp_all add: LF_def is_line_terminator_def is_space_def)

lemma dot_star_LF:
  "rest x = z @ LF # r \<Longrightarrow> \<forall>c\<in>set z. \<not> is_line_terminator c \<Longrightarrow>
   matcher (Seq (Star (Atom Dot)) (Atom (Lit LF))) x = [advance (Suc (length z)) x]"
proof (induction z arbitrary: x)
  case Nil
  then show ?case
    by (subst seq_star_Atom) (simp add: matcher_Atom del: matcher.simps)
next
  case (Cons c z)
  from Cons.prems have c: "\<not> is_line_terminator c" "c \<noteq> LF"
    by auto
  have "matcher (Seq (Star (Atom Dot)) (Atom (Lit LF))) (advance 1 x)
          = [advance (Suc (length z)) (advance 1 x)]"
    using Cons.prems by (intro Cons.IH) simp_all
  with Cons.prems c show ?case
    by (subst seq_star_Atom) (simp add: matcher_Atom del: matcher.simps)
qed

lemma dot_star_LF_fails:
  "\<not> (\<exists>z r. rest x = z @ LF # r \<and> (\<forall>c\<in>set z. \<not> is_line_terminator c)) \<Longrightarrow>
   matcher (Seq (Star (Atom Dot)) (Atom (Lit LF))) x = []"
proof (induction "rest x" arbitrary: x)
  case Nil
  then show ?case
    by (subst seq_star_Atom) (simp add: matcher_Atom del: matcher.simps)
next
  case (Cons c cs)
  from Cons.prems Cons.hyps(2) [symmetric] have c: "c \<noteq> LF"
    by (metis append_Nil empty_iff list.set(1))
  show ?case
  proof (cases "is_line_terminator c")
    case True
    with c Cons.hyps(2) [symmetric] show ?thesis
      by (subst seq_star_Atom) (simp add: matcher_Atom del: matcher.simps)
  next
    case False
    have "\<not> (\<exists>z r. rest (advance 1 x) = z @ LF # r \<and> (\<forall>c\<in>set z. \<not> is_line_terminator c))"
    proof
      assume "\<exists>z r. rest (advance 1 x) = z @ LF # r \<and> (\<forall>c\<in>set z. \<not> is_line_terminator c)"
      then obtain z r where "cs = z @ LF # r" "\<forall>c\<in>set z. \<not> is_line_terminator c"
        using Cons.hyps(2) [symmetric] by auto
      with False Cons.hyps(2) [symmetric]
      have "rest x = (c # z) @ LF # r \<and> (\<forall>c\<in>set (c # z). \<not> is_line_terminator c)"
        by simp
      with Cons.prems show False by blast
    qed
    moreover have "cs = rest (advance 1 x)"
      using Cons.hyps(2) [symmetric] by simp
    ultimately have "matcher (Seq (Star (Atom Dot)) (Atom (Lit LF))) (advance 1 x) = []"
      by (rule Cons.hyps(1) [rotated])
    with False c Cons.hyps(2) [symmetric] show ?thesis
      by (subst seq_star_Atom) (simp add: matcher_Atom del: matcher.simps)
  qed
qed

lemma matcher_Seq_lits:
  "matcher (Seq (lits w) r) x = (if prefix w (rest x) then matcher r (advance (length w) x) else [])"
  by (simp add: matcher_lits del: matcher.simps(2))

declare matcher.simps [simp del]

lemma length_bullet_marker: "length (js ''- '') = 2"
  by (simp add: js_def)

lemma bulletPattern_matches:
  assumes "rest x = js ''- '' @ z @ LF # r" and "\<forall>c\<in>set z. \<not> is_line_terminator c"
  shows "matcher bulletPattern x = [advance (length z + 3) x]"
proof -
  have p: "prefix (js ''- '') (rest x)"
    using assms(1) by simp
  have "rest (advance 2 x) = z @ LF # r"
    using assms(1) by (simp add: length_bullet_marker)
  from dot_star_LF [OF this assms(2)]
  have "matcher (Seq (Star (Atom Dot)) (Atom (Lit LF))) (advance 2 x) = [advance (length z + 3) x]"
    by (simp add: eval_nat_numeral)
  with p show ?thesis
    unfolding bulletPattern_def by (simp add: matcher_Seq_lits length_bullet_marker)
qed

lemma bulletPattern_fails:
  assumes "\<not> (\<exists>z r. rest x = js ''- '' @ z @ LF # r \<and> (\<forall>c\<in>set z. \<not> is_line_terminator c))"
  shows "matcher bulletPattern x = []"
proof (cases "prefix (js ''- '') (rest x)")
  case False
  then show ?thesis
    unfolding bulletPattern_def by (simp add: matcher_Seq_lits)
next
  case True
  then obtain s where s: "rest x = js ''- '' @ s"
    by (auto simp: prefix_def)
  have "\<not> (\<exists>z r. rest (advance 2 x) = z @ LF # r \<and> (\<forall>c\<in>set z. \<not> is_line_terminator c))"
    using assms s by (simp add: length_bullet_marker)
  from dot_star_LF_fails [OF this] True show ?thesis
    unfolding bulletPattern_def by (simp add: matcher_Seq_lits length_bullet_marker)
qed

lemma star_bulletPattern:
  assumes "\<forall>z\<in>set zs. \<forall>c\<in>set z. \<not> is_line_terminator c"
    and "rest x = concat (map (\<lambda>z. js ''- '' @ z @ [LF]) zs) @ post"
    and "\<not> (\<exists>z r. post = js ''- '' @ z @ LF # r \<and> (\<forall>c\<in>set z. \<not> is_line_terminator c))"
  shows "\<exists>ys. star (matcher bulletPattern) x
           = advance (length (concat (map (\<lambda>z. js ''- '' @ z @ [LF]) zs))) x # ys"
  using assms
proof (induction zs arbitrary: x)
  case Nil
  then have "matcher bulletPattern x = []"
    by (intro bulletPattern_fails) simp
  then show ?case
    by (subst star.simps) simp
next
  case (Cons z zs)
  let ?n = "length z + 3"
  have r: "rest x = js ''- '' @ z @ LF # (concat (map (\<lambda>z. js ''- '' @ z @ [LF]) zs) @ post)"
    using Cons.prems(2) by simp
  have m: "matcher bulletPattern x = [advance ?n x]"
    using r Cons.prems(1) by (intro bulletPattern_matches) auto
  have r': "rest (advance ?n x) = concat (map (\<lambda>z. js ''- '' @ z @ [LF]) zs) @ post"
    using r by (simp add: length_bullet_marker)
  from Cons.IH [OF _ r' Cons.prems(3)] Cons.prems(1)
  obtain ys where ys: "star (matcher bulletPattern) (advance ?n x)
      = advance (length (concat (map (\<lambda>z. js ''- '' @ z @ [LF]) zs))) (advance ?n x) # ys"
    by auto
  have less: "length (rest (advance ?n x)) < length (rest x)"
    using r by (simp add: length_bullet_marker)
  have "star (matcher bulletPattern) x = star (matcher bulletPattern) (advance ?n x) @ [x]"
    by (subst star.simps) (simp only: m less list.map concat.simps if_True append_Nil2)
  with ys show ?case
    by (simp add: length_bullet_marker eval_nat_numeral)
qed

lemma Group_Plus_bulletPattern:
  assumes "zs \<noteq> []" and "\<forall>z\<in>set zs. \<forall>c\<in>set z. \<not> is_line_terminator c"
    and "rest x = concat (map (\<lambda>z. js ''- '' @ z @ [LF]) zs) @ post"
    and "\<not> (\<exists>z r. post = js ''- '' @ z @ LF # r \<and> (\<forall>c\<in>set z. \<not> is_line_terminator c))"
  shows "\<exists>ys. matcher (Group 1 (Plus bulletPattern)) x
           = (advance (length (concat (map (\<lambda>z. js ''- '' @ z @ [LF]) zs))) x)
               \<lparr>captures := (1, concat (map (\<lambda>z. js ''- '' @ z @ [LF]) zs)) # captures x\<rparr> # ys"
proof -
  from assms(1) obtain z zs' where zs: "zs = z # zs'"
    by (cases zs) auto
  let ?n = "length z + 3"
  have r: "rest x = js ''- '' @ z @ LF # (concat (map (\<lambda>z. js ''- '' @ z @ [LF]) zs') @ post)"
    using assms(3) zs by simp
  have m: "matcher bulletPattern x = [advance ?n x]"
    using r assms(2) zs by (intro bulletPattern_matches) auto
  have r': "rest (advance ?n x) = concat (map (\<lambda>z. js ''- '' @ z @ [LF]) zs') @ post"
    using r by (simp add: length_bullet_marker)
  from star_bulletPattern [OF _ r' assms(4)] assms(2) zs
  obtain ys where ys: "star (matcher bulletPattern) (advance ?n x)
      = advance (length (concat (map (\<lambda>z. js ''- '' @ z @ [LF]) zs'))) (advance ?n x) # ys"
    by auto
  have n: "?n + length (concat (map (\<lambda>z. js ''- '' @ z @ [LF]) zs'))
             = length (concat (map (\<lambda>z. js ''- '' @ z @ [LF]) zs))"
    using zs by (simp add: length_bullet_marker)
  have "matcher (Plus bulletPattern) x
          = advance (length (concat (map (\<lambda>z. js ''- '' @ z @ [LF]) zs))) x # ys"
    using m ys n by (simp add: matcher.simps)
  then show ?thesis
    using assms(3) by (simp add: matcher.simps)
qed


lemma matcher_Seq_Atom:
  "matcher (Seq (Atom a) r) x =
     (case rest x of
        [] \<Rightarrow> []
      | c # cs \<Rightarrow> if atom_matches a c then matcher r (advance 1 x) else [])"
  by (simp add: matcher.simps(4) matcher_Atom split: list.splits)

lemma Group_Plus_fails:
  "matcher bulletPattern x = [] \<Longrightarrow> matcher (Group 1 (Plus bulletPattern)) x = []"
  by (simp add: matcher.simps)

lemma DASH_not_space [simp]: "\<not> is_space DASH"
  by (simp add: DASH_def is_space_def is_white_space_def is_line_terminator_def)

lemma bullet_marker: "js ''- '' = [DASH, 0x20]"
  by (simp add: js_def DASH_def)

lemma listPattern_unfold:
  "matcher listPattern x =
     (case rest x of
        [] \<Rightarrow> []
      | c # cs \<Rightarrow>
          if is_space c
          then matcher listPattern (advance 1 x)
               @ (if c = LF then matcher (Group 1 (Plus bulletPattern)) (advance 1 x) else [])
          else [])"
  unfolding listPattern_def
  by (subst seq_star_Atom) (auto simp: matcher_Seq_Atom split: list.splits)

lemma listPattern_matches:
  assumes "\<forall>c\<in>set ws. is_space c" and "rest x = ws @ LF # b" and "b \<noteq> []"
    and "\<not> is_space (hd b)"
    and "matcher (Group 1 (Plus bulletPattern)) (advance (Suc (length ws)) x) = y # ys"
  shows "\<exists>zs. matcher listPattern x = y # zs"
  using assms
proof (induction ws arbitrary: x)
  case Nil
  from Nil.prems(3,4) obtain c cs where b: "b = c # cs" "\<not> is_space c"
    by (cases b) auto
  have "matcher listPattern (advance 1 x) = []"
    using Nil.prems(2) b by (subst listPattern_unfold) simp
  with Nil.prems(2,5) show ?case
    by (subst listPattern_unfold) simp
next
  case (Cons w ws)
  have "\<exists>zs. matcher listPattern (advance 1 x) = y # zs"
    using Cons.prems by (intro Cons.IH) simp_all
  then obtain zs where "matcher listPattern (advance 1 x) = y # zs" ..
  with Cons.prems(1,2) show ?case
    by (subst listPattern_unfold) simp
qed

lemma listPattern_fails:
  assumes "\<forall>c\<in>set ws. is_space c" and "rest x = ws @ post"
    and "post = [] \<or> \<not> is_space (hd post)"
    and "\<not> (\<exists>z r. post = js ''- '' @ z @ LF # r \<and> (\<forall>c\<in>set z. \<not> is_line_terminator c))"
  shows "matcher listPattern x = []"
  using assms
proof (induction ws arbitrary: x)
  case Nil
  then show ?case
    by (subst listPattern_unfold) (auto split: list.splits)
next
  case (Cons w ws)
  have 1: "matcher listPattern (advance 1 x) = []"
    using Cons.prems by (intro Cons.IH) simp_all
  have "\<not> (\<exists>z r. rest (advance 1 x) = js ''- '' @ z @ LF # r
             \<and> (\<forall>c\<in>set z. \<not> is_line_terminator c))"
  proof (cases ws)
    case Nil
    with Cons.prems(2,4) show ?thesis by simp
  next
    case (Cons v vs)
    with Cons.prems(1) have "is_space v" by simp
    then have "v \<noteq> DASH" by auto
    with Cons Cons.prems(2) show ?thesis
      by (simp add: bullet_marker)
  qed
  then have "matcher (Group 1 (Plus bulletPattern)) (advance 1 x) = []"
    by (intro Group_Plus_fails bulletPattern_fails)
  with 1 Cons.prems(2) show ?case
    by (subst listPattern_unfold) simp
qed

lemma length_header: "length (js ''TARGET_URLS:'') = 12"
  by (simp add: js_def)

lemma urlPattern_at:
  "matcher urlPattern x =
     (if prefix (js ''TARGET_URLS:'') (rest x) then matcher listPattern (advance 12 x) else [])"
  unfolding urlPattern_def by (simp add: matcher_Seq_lits length_header)

lemma exec_from_skip:
  "(\<forall>k<length p. matcher r \<lparr>pos = i + k, rest = drop k (p @ s), captures = []\<rparr> = []) \<Longrightarrow>
   exec_from r i (p @ s) = exec_from r (i + length p) s"
proof (induction p arbitrary: i)
  case Nil
  then show ?case by simp
next
  case (Cons c p)
  from Cons.prems [rule_format, of 0]
  have 0: "matcher r \<lparr>pos = i, rest = c # p @ s, captures = []\<rparr> = []"
    by simp
  have "\<forall>k<length p. matcher r \<lparr>pos = Suc i + k, rest = drop k (p @ s), captures = []\<rparr> = []"
  proof (intro allI impI)
    fix k assume "k < length p"
    with Cons.prems [rule_format, of "Suc k"]
    show "matcher r \<lparr>pos = Suc i + k, rest = drop k (p @ s), captures = []\<rparr> = []"
      by simp
  qed
  from Cons.IH [OF this] 0 show ?case
    by (subst exec_from.simps) simp
qed

lemma exec_from_None:
  "(\<forall>k\<le>length s. matcher r \<lparr>pos = i + k, rest = drop k s, captures = []\<rparr> = []) \<Longrightarrow>
   exec_from r i s = None"
proof (induction s arbitrary: i)
  case Nil
  then show ?case
    by (subst exec_from.simps) simp
next
  case (Cons c s)
  from Cons.prems [rule_format, of 0]
  have 0: "matcher r \<lparr>pos = i, rest = c # s, captures = []\<rparr> = []"
    by simp
  have "\<forall>k\<le>length s. matcher r \<lparr>pos = Suc i + k, rest = drop k s, captures = []\<rparr> = []"
  proof (intro allI impI)
    fix k assume "k \<le> length s"
    with Cons.prems [rule_format, of "Suc k"]
    show "matcher r \<lparr>pos = Suc i + k, rest = drop k s, captures = []\<rparr> = []"
      by simp
  qed
  from Cons.IH [OF this] 0 show ?case
    by (subst exec_from.simps) simp
qed

subsection \<open>Occurrences of the header\<close>

lemma header_drops:
  "drop 1 (js ''TARGET_URLS:'') = js ''ARGET_URLS:''"
  "drop 2 (js ''TARGET_URLS:'') = js ''RGET_URLS:''"
  "drop 3 (js ''TARGET_URLS:'') = js ''GET_URLS:''"
  "drop 4 (js ''TARGET_URLS:'') = js ''ET_URLS:''"
  "drop 5 (js ''TARGET_URLS:'') = js ''T_URLS:''"
  "drop 6 (js ''TARGET_URLS:'') = js ''_URLS:''"
  "drop 7 (js ''TARGET_URLS:'') = js ''URLS:''"
  "drop 8 (js ''TARGET_URLS:'') = js ''RLS:''"
  "drop 9 (js ''TARGET_URLS:'') = js ''LS:''"
  "drop 10 (js ''TARGET_URLS:'') = js ''S:''"
  "drop 11 (js ''TARGET_URLS:'') = js '':''"
  by (simp_all add: js_def)

lemma header_no_border:
  assumes "0 < k" and "k < 12"
  shows "\<not> prefix (js ''TARGET_URLS:'') (drop k (js ''TARGET_URLS:'') @ r)"
proof -
  from assms have "k = 1 \<or> k = 2 \<or> k = 3 \<or> k = 4 \<or> k = 5 \<or> k = 6 \<or> k = 7 \<or> k = 8
      \<or> k = 9 \<or> k = 10 \<or> k = 11"
    by arith
  then show ?thesis
    by (elim disjE) (simp_all only: header_drops, simp_all add: js_def)
qed


lemma header_no_border':
  assumes "0 < k" and "k < 12"
  shows "\<not> prefix (drop k (js ''TARGET_URLS:'')) (js ''TARGET_URLS:'' @ r)"
proof -
  from assms have "k = 1 \<or> k = 2 \<or> k = 3 \<or> k = 4 \<or> k = 5 \<or> k = 6 \<or> k = 7 \<or> k = 8
      \<or> k = 9 \<or> k = 10 \<or> k = 11"
    by arith
  then show ?thesis
    by (elim disjE) (simp_all only: header_drops, simp_all add: js_def)
qed

lemma header_not_before:
  assumes "\<not> sublist (js ''TARGET_URLS:'') pre" and "k < length pre"
  shows "\<not> prefix (js ''TARGET_URLS:'') (drop k (pre @ js ''TARGET_URLS:'' @ r))"
proof
  let ?h = "js ''TARGET_URLS:''"
  let ?p = "drop k pre"
  assume "prefix ?h (drop k (pre @ ?h @ r))"
  with assms(2) have "prefix ?h (?p @ ?h @ r)"
    by simp
  then have "prefix ?h ?p \<or> (\<exists>us. ?h = ?p @ us \<and> prefix us (?h @ r))"
    by (simp only: prefix_append)
  then consider "prefix ?h ?p" | us where "?h = ?p @ us" "prefix us (?h @ r)"
    by blast
  then show False
  proof cases
    case 1
    then have "sublist ?h ?p"
      by (rule prefix_imp_sublist)
    moreover have "sublist ?p pre"
      by (rule sublist_drop)
    ultimately have "sublist ?h pre"
      by (rule sublist_order.order.trans)
    with assms(1) show ?thesis ..
  next
    case 2
    from 2(1) have "length ?h = length ?p + length us"
      by (metis length_append)
    then have len: "12 = length ?p + length us"
      by (simp only: length_header)
    then have l: "length ?p \<le> 12"
      by simp
    from 2(1) have us: "us = drop (length ?p) ?h"
      by (metis append_eq_conv_conj)
    from assms(2) have pos: "0 < length ?p"
      by simp
    show ?thesis
    proof (cases "length ?p = 12")
      case True
      with len have "us = []"
        by simp
      with 2(1) have "?h = ?p"
        by simp
      then have "sublist ?h pre"
        using sublist_drop [of k pre] by simp
      with assms(1) show ?thesis ..
    next
      case False
      with l have "length ?p < 12" by simp
      from header_no_border' [OF pos this] 2(2) us show ?thesis
        by simp
    qed
  qed
qed

lemma header_not_inside:
  assumes "0 < k" and "k < 12"
  shows "\<not> prefix (js ''TARGET_URLS:'') (drop k (js ''TARGET_URLS:'' @ r))"
  using header_no_border [OF assms, of r] assms(2) by (simp add: length_header)

subsection \<open>The two patterns on a template\<close>

lemma urlPattern_match:
  assumes pre: "\<not> sublist (js ''TARGET_URLS:'') pre"
    and ws: "\<forall>c\<in>set ws. is_space c"
    and zs: "zs \<noteq> []" "\<forall>z\<in>set zs. \<forall>c\<in>set z. \<not> is_line_terminator c"
    and post: "\<not> (\<exists>z r. post = js ''- '' @ z @ LF # r \<and> (\<forall>c\<in>set z. \<not> is_line_terminator c))"
  shows "\<exists>m. js_match (pre @ js ''TARGET_URLS:'' @ ws @ LF
                  # concat (map (\<lambda>z. js ''- '' @ z @ [LF]) zs) @ post) urlPattern = Some m
             \<and> group m 1 = Some (concat (map (\<lambda>z. js ''- '' @ z @ [LF]) zs))"
proof -
  let ?h = "js ''TARGET_URLS:''"
  let ?bl = "concat (map (\<lambda>z. js ''- '' @ z @ [LF]) zs)"
  let ?s = "?h @ ws @ LF # ?bl @ post"
  let ?x0 = "\<lparr>pos = length pre, rest = ?s, captures = []\<rparr>"
  have skip: "exec_from urlPattern 0 (pre @ ?s) = exec_from urlPattern (0 + length pre) ?s"
  proof (rule exec_from_skip, intro allI impI)
    fix k assume "k < length pre"
    from header_not_before [OF pre this, of "ws @ LF # ?bl @ post"]
    show "matcher urlPattern \<lparr>pos = 0 + k, rest = drop k (pre @ ?s), captures = []\<rparr> = []"
      by (simp add: urlPattern_at)
  qed
  from zs(1) obtain z zs' where "zs = z # zs'"
    by (cases zs) auto
  then have b: "?bl @ post \<noteq> []" "\<not> is_space (hd (?bl @ post))"
    by (simp_all add: bullet_marker)
  have r1: "rest (advance 12 ?x0) = ws @ LF # (?bl @ post)"
    by (simp add: length_header)
  have r2: "rest (advance (Suc (length ws)) (advance 12 ?x0)) = ?bl @ post"
    by (simp add: length_header)
  from Group_Plus_bulletPattern [OF zs r2 post]
  obtain ys where g: "matcher (Group 1 (Plus bulletPattern)) (advance (Suc (length ws)) (advance 12 ?x0))
      = (advance (length ?bl) (advance (Suc (length ws)) (advance 12 ?x0)))
          \<lparr>captures := (1, ?bl) # captures (advance (Suc (length ws)) (advance 12 ?x0))\<rparr> # ys"
    by blast
  from listPattern_matches [OF ws r1 b g]
  obtain ys' where "matcher listPattern (advance 12 ?x0)
      = (advance (length ?bl) (advance (Suc (length ws)) (advance 12 ?x0)))
          \<lparr>captures := (1, ?bl) # captures (advance (Suc (length ws)) (advance 12 ?x0))\<rparr> # ys'"
    by blast
  then have "matcher urlPattern ?x0
      = (advance (length ?bl) (advance (Suc (length ws)) (advance 12 ?x0)))
          \<lparr>captures := (1, ?bl) # captures (advance (Suc (length ws)) (advance 12 ?x0))\<rparr> # ys'"
    by (simp add: urlPattern_at)
  then have "\<exists>m. exec_from urlPattern (0 + length pre) ?s = Some m \<and> groups m = [(1, ?bl)]"
    by (subst exec_from.simps) simp
  with skip show ?thesis
    by (auto simp: js_match_def group_def)
qed

lemma urlPattern_no_match:
  assumes "\<forall>p r. t = p @ js ''TARGET_URLS:'' @ r \<longrightarrow>
             \<not> (\<exists>z r'. dropWhile is_space r = js ''- '' @ z @ LF # r'
                    \<and> (\<forall>c\<in>set z. \<not> is_line_terminator c))"
  shows "js_match t urlPattern = None"
  unfolding js_match_def
proof (rule exec_from_None, intro allI impI)
  fix k assume "k \<le> length t"
  let ?x = "\<lparr>pos = 0 + k, rest = drop k t, captures = []\<rparr>"
  show "matcher urlPattern ?x = []"
  proof (cases "prefix (js ''TARGET_URLS:'') (drop k t)")
    case False
    then show ?thesis
      by (simp add: urlPattern_at)
  next
    case True
    then obtain r where r: "drop k t = js ''TARGET_URLS:'' @ r"
      by (auto simp: prefix_def)
    then have "t = take k t @ js ''TARGET_URLS:'' @ r"
      by (metis append_take_drop_id)
    with assms have nb: "\<not> (\<exists>z r'. dropWhile is_space r = js ''- '' @ z @ LF # r'
                    \<and> (\<forall>c\<in>set z. \<not> is_line_terminator c))"
      by blast
    have w: "\<forall>c\<in>set (takeWhile is_space r). is_space c"
      by (auto dest: set_takeWhileD)
    have r': "rest (advance 12 ?x) = takeWhile is_space r @ dropWhile is_space r"
      using r by (simp add: length_header)
    have e: "dropWhile is_space r = [] \<or> \<not> is_space (hd (dropWhile is_space r))"
      using hd_dropWhile [of is_space r] by blast
    from listPattern_fails [OF w r' e nb] True show ?thesis
      by (simp add: urlPattern_at)
  qed
qed


lemma star_Atom_head:
  "\<exists>ys. star (matcher (Atom a)) x
          = advance (length (takeWhile (atom_matches a) (rest x))) x # ys"
proof (induction "rest x" arbitrary: x)
  case Nil
  then show ?case
    by (subst star_unfold_Atom) (simp add: Nil.hyps [symmetric])
next
  case (Cons c cs)
  show ?case
  proof (cases "atom_matches a c")
    case False
    with Cons.hyps(2) [symmetric] show ?thesis
      by (subst star_unfold_Atom) simp
  next
    case True
    have "cs = rest (advance 1 x)"
      using Cons.hyps(2) [symmetric] by simp
    from Cons.hyps(1) [OF this] obtain ys where
      "star (matcher (Atom a)) (advance 1 x)
         = advance (length (takeWhile (atom_matches a) (rest (advance 1 x)))) (advance 1 x) # ys"
      by blast
    with True Cons.hyps(2) [symmetric] show ?thesis
      by (subst star_unfold_Atom) simp
  qed
qed

lemma js_replace_dash: "js_replace (DASH # s) dashPattern [] = dropWhile is_space s"
proof -
  let ?x0 = "\<lparr>pos = 0, rest = DASH # s, captures = []\<rparr>"
  let ?n = "length (takeWhile is_space s)"
  have "matcher dashPattern ?x0 = star (matcher (Atom Space)) (advance 1 ?x0)"
    unfolding dashPattern_def by (simp add: matcher.simps(3,4,5) matcher_Atom)
  moreover obtain ys where "star (matcher (Atom Space)) (advance 1 ?x0)
      = advance (length (takeWhile (atom_matches Space) (rest (advance 1 ?x0)))) (advance 1 ?x0) # ys"
    using star_Atom_head by blast
  moreover have "atom_matches Space = is_space"
    by (rule ext) simp
  ultimately have "matcher dashPattern ?x0 = advance (Suc ?n) ?x0 # ys"
    by simp
  then have "exec_from dashPattern 0 (DASH # s)
      = Some \<lparr>index = 0, matched = DASH # take ?n s, groups = []\<rparr>"
    by (subst exec_from.simps) simp
  moreover have "?n \<le> length s"
    by (rule length_takeWhile_le)
  ultimately show ?thesis
    by (simp add: js_replace_def dropWhile_eq_drop)
qed

lemma trim_Cons_nonspace:
  "\<not> is_space c \<Longrightarrow> trim (c # s) = c # rev (dropWhile is_space (rev s))"
  by (simp add: trim_def dropWhile_append)

lemma trim_dropWhile: "trim (dropWhile is_space s) = trim s"
  by (simp add: trim_def)

lemma LF_not_in_bullet: "LF \<notin> set z \<Longrightarrow> LF \<notin> set (js ''- '' @ z)"
  by (simp add: bullet_marker LF_def DASH_def)

lemma split_bullets:
  "\<forall>z\<in>set zs. LF \<notin> set z \<Longrightarrow>
   split LF (concat (map (\<lambda>z. js ''- '' @ z @ [LF]) zs)) = map (\<lambda>z. js ''- '' @ z) zs @ [[]]"
proof (induction zs)
  case Nil
  then show ?case by simp
next
  case (Cons z zs)
  have "split LF ((js ''- '' @ z) @ LF # concat (map (\<lambda>z. js ''- '' @ z @ [LF]) zs))
          = (js ''- '' @ z) # split LF (concat (map (\<lambda>z. js ''- '' @ z @ [LF]) zs))"
    using Cons.prems by (intro split_append_sep LF_not_in_bullet) simp
  with Cons show ?case
    by simp
qed

lemma bullet_line_entry:
  "startsWith (trim (js ''- '' @ z)) (js ''-'')"
  "trim (js_replace (js ''- '' @ z) dashPattern []) = trim z"
proof -
  have "js ''-'' = [DASH]"
    by (simp add: js_def DASH_def)
  then show "startsWith (trim (js ''- '' @ z)) (js ''-'')"
    by (simp add: bullet_marker trim_Cons_nonspace startsWith_def)
  have "is_space 0x20"
    by (simp add: is_space_def is_white_space_def)
  then have "dropWhile is_space (0x20 # z) = dropWhile is_space z"
    by simp
  then show "trim (js_replace (js ''- '' @ z) dashPattern []) = trim z"
    by (simp add: bullet_marker js_replace_dash trim_dropWhile del: dropWhile.simps)
qed

lemma urls_of_group:
  assumes "\<forall>z\<in>set zs. LF \<notin> set z"
  shows "map (\<lambda>line. trim (js_replace line dashPattern []))
           (filter (\<lambda>line. startsWith (trim line) (js ''-''))
             (split LF (concat (map (\<lambda>z. js ''- '' @ z @ [LF]) zs))))
         = map trim zs"
proof -
  have "\<not> startsWith (trim []) (js ''-'')"
    by (simp add: trim_def startsWith_def js_def)
  then show ?thesis
    by (simp add: split_bullets [OF assms] bullet_line_entry filter_map comp_def)
qed

lemma no_terminator_no_LF: "\<forall>c\<in>set z. \<not> is_line_terminator c \<Longrightarrow> LF \<notin> set z"
  by auto

lemma urls_from_prompt_bullets:
  assumes "\<not> sublist (js ''TARGET_URLS:'') pre"
    and "\<forall>c\<in>set ws. is_space c"
    and "zs \<noteq> []" and "\<forall>z\<in>set zs. \<forall>c\<in>set z. \<not> is_line_terminator c"
    and "\<not> (\<exists>z r. post = js ''- '' @ z @ LF # r \<and> (\<forall>c\<in>set z. \<not> is_line_terminator c))"
  shows "urls_from_prompt (Inr (pre @ js ''TARGET_URLS:'' @ ws @ LF
           # concat (map (\<lambda>z. js ''- '' @ z @ [LF]) zs) @ post)) = Inr (map trim zs)"
proof -
  from urlPattern_match [OF assms] obtain m where
    m: "js_match (pre @ js ''TARGET_URLS:'' @ ws @ LF
          # concat (map (\<lambda>z. js ''- '' @ z @ [LF]) zs) @ post) urlPattern = Some m"
       "group m 1 = Some (concat (map (\<lambda>z. js ''- '' @ z @ [LF]) zs))"
    by blast
  have "\<forall>z\<in>set zs. LF \<notin> set z"
    using assms(4) no_terminator_no_LF by blast
  from urls_of_group [OF this] m show ?thesis
    by (simp add: urls_from_prompt_def loadSystemPrompt_def)
qed

lemma urls_from_prompt_default:
  "js_match t urlPattern = None \<Longrightarrow> urls_from_prompt (Inr t) = Inr default_urls"
  by (simp add: urls_from_prompt_def loadSystemPrompt_def)

lemma loadTargetURLs_unset:
  "env = None \<or> env = Some [] \<Longrightarrow> loadTargetURLs env file = urls_from_prompt file"
  by auto


subsection \<open>Targets from the prompt template\<close>




text \<open>
  C7: without an override, the single built-in default target is returned when the
  template does not contain \<open>TARGET_URLS:\<close> at all, and when no occurrence of
  \<open>TARGET_URLS:\<close> has a bullet under it: what follows the occurrence, after any white
  space, does not begin with the bullet marker.
\<close>

theorem C7_default_target:
  assumes "env = None \<or> env = Some []"
    and "\<not> sublist (js ''TARGET_URLS:'') t
         \<or> (\<forall>pre rest. t = pre @ js ''TARGET_URLS:'' @ rest \<longrightarrow>
               \<not> prefix (js ''- '') (dropWhile is_space rest))"
  shows "loadTargetURLs env (Inr t)
         = Inr [js ''https://www.google.com/finance/quote/VIX:INDEXCBOE'']"
proof -
  have "\<forall>p r. t = p @ js ''TARGET_URLS:'' @ r \<longrightarrow>
          \<not> (\<exists>z r'. dropWhile is_space r = js ''- '' @ z @ LF # r'
                 \<and> (\<forall>c\<in>set z. \<not> is_line_terminator c))"
  proof (intro allI impI)
    fix p r assume t: "t = p @ js ''TARGET_URLS:'' @ r"
    then have "sublist (js ''TARGET_URLS:'') t"
      by (auto simp: sublist_def)
    with assms(2) t have "\<not> prefix (js ''- '') (dropWhile is_space r)"
      by blast
    then show "\<not> (\<exists>z r'. dropWhile is_space r = js ''- '' @ z @ LF # r'
                 \<and> (\<forall>c\<in>set z. \<not> is_line_terminator c))"
      by auto
  qed
  then have "js_match t urlPattern = None"
    by (rule urlPattern_no_match)
  with assms(1) show ?thesis
    by (simp add: loadTargetURLs_unset urls_from_prompt_default default_urls_def)
qed

lemma occurrences_by_index:
  "(\<forall>pre rest. t = pre @ h @ rest \<longrightarrow> P rest)
   \<longleftrightarrow> list_all (\<lambda>k. prefix h (drop k t) \<longrightarrow> P (drop (k + length h) t)) [0..<Suc (length t)]"
proof
  assume a: "\<forall>pre rest. t = pre @ h @ rest \<longrightarrow> P rest"
  show "list_all (\<lambda>k. prefix h (drop k t) \<longrightarrow> P (drop (k + length h) t)) [0..<Suc (length t)]"
    unfolding list_all_iff
  proof (intro ballI impI)
    fix k assume "prefix h (drop k t)"
    then obtain r where r: "drop k t = h @ r"
      by (auto simp: prefix_def)
    then have "t = take k t @ h @ r"
      by (metis append_take_drop_id)
    with a have "P r" by blast
    moreover have "drop (k + length h) t = r"
      using r by (metis append_eq_conv_conj drop_drop add.commute)
    ultimately show "P (drop (k + length h) t)" by simp
  qed
next
  assume b: "list_all (\<lambda>k. prefix h (drop k t) \<longrightarrow> P (drop (k + length h) t))
               [0..<Suc (length t)]"
  show "\<forall>pre rest. t = pre @ h @ rest \<longrightarrow> P rest"
  proof (intro allI impI)
    fix pre rest assume t: "t = pre @ h @ rest"
    then have "length pre \<in> set [0..<Suc (length t)]"
      by simp
    with b have "prefix h (drop (length pre) t) \<longrightarrow> P (drop (length pre + length h) t)"
      unfolding list_all_iff by blast
    with t show "P rest"
      by simp
  qed
qed


theorem C7_default_target_witness:
  "loadTargetURLs None (Inr (js ''Summarise the pages.''))
     = Inr [js ''https://www.google.com/finance/quote/VIX:INDEXCBOE'']
   \<and> loadTargetURLs (Some []) (Inr (js ''TARGET_URLS:'' @ [LF] @ js ''(none)'' @ [LF]))
     = Inr [js ''https://www.google.com/finance/quote/VIX:INDEXCBOE'']"
proof -
  have 1: "\<not> sublist (js ''TARGET_URLS:'') (js ''Summarise the pages.'')"
    by (simp add: js_def sublist_code(3))
  have "list_all (\<lambda>k. prefix (js ''TARGET_URLS:'')
                        (drop k (js ''TARGET_URLS:'' @ [LF] @ js ''(none)'' @ [LF]))
              \<longrightarrow> \<not> prefix (js ''- '')
                    (dropWhile is_space
                      (drop (k + length (js ''TARGET_URLS:''))
                        (js ''TARGET_URLS:'' @ [LF] @ js ''(none)'' @ [LF]))))
          [0..<Suc (length (js ''TARGET_URLS:'' @ [LF] @ js ''(none)'' @ [LF]))]"
    by code_simp
  then have 2: "\<forall>pre rest. js ''TARGET_URLS:'' @ [LF] @ js ''(none)'' @ [LF]
                   = pre @ js ''TARGET_URLS:'' @ rest \<longrightarrow>
                 \<not> prefix (js ''- '') (dropWhile is_space rest)"
    by (simp only: occurrences_by_index)
  from C7_default_target [of None "js ''Summarise the pages.''"] 1
    C7_default_target [of "Some []" "js ''TARGET_URLS:'' @ [LF] @ js ''(none)'' @ [LF]"] 2
  show ?thesis
    by blast
qed

lemma drop_append_ge: "length xs \<le> n \<Longrightarrow> drop n (xs @ ys) = drop (n - length xs) ys"
  by simp

lemma T_not_space: "\<not> is_space (hd (js ''TARGET_URLS:'' @ r))"
  by (simp add: js_def is_space_def is_white_space_def is_line_terminator_def)

lemma no_match_unterminated:
  assumes pre: "\<not> sublist (js ''TARGET_URLS:'') pre"
    and ws: "\<forall>c\<in>set ws. is_space c"
    and e: "LF \<notin> set e"
  shows "js_match (pre @ js ''TARGET_URLS:'' @ ws @ LF # js ''- '' @ e) urlPattern = None"
proof (rule urlPattern_no_match, intro allI impI)
  let ?h = "js ''TARGET_URLS:''"
  let ?W = "ws @ [LF]"
  let ?B = "js ''- '' @ e"
  fix p r assume "pre @ ?h @ ws @ LF # ?B = p @ ?h @ r"
  then have t: "pre @ ?h @ ?W @ ?B = p @ ?h @ r"
    by simp
  have d: "drop (length p) (pre @ ?h @ ?W @ ?B) = ?h @ r"
    by (subst t) simp
  have W: "\<forall>c\<in>set ?W. is_space c"
    using ws by simp
  have B: "LF \<notin> set ?B"
    using e by (rule LF_not_in_bullet)
  have goal_if: "\<not> (\<exists>z r'. dropWhile is_space r = js ''- '' @ z @ LF # r'
      \<and> (\<forall>c\<in>set z. \<not> is_line_terminator c))" if "LF \<notin> set (dropWhile is_space r)"
  proof
    assume "\<exists>z r'. dropWhile is_space r = js ''- '' @ z @ LF # r'
      \<and> (\<forall>c\<in>set z. \<not> is_line_terminator c)"
    then obtain z r' where "dropWhile is_space r = js ''- '' @ z @ LF # r'"
      by blast
    then have "LF \<in> set (dropWhile is_space r)"
      by simp
    with that show False ..
  qed
  show "\<not> (\<exists>z r'. dropWhile is_space r = js ''- '' @ z @ LF # r'
      \<and> (\<forall>c\<in>set z. \<not> is_line_terminator c))"
  proof (cases "length p < length pre")
    case True
    from header_not_before [OF pre True, of "?W @ ?B"] d show ?thesis
      by simp
  next
    case False
    define j where "j = length p - length pre"
    from False d have dj: "drop j (?h @ ?W @ ?B) = ?h @ r"
      by (simp add: j_def)
    consider "j = 0" | "0 < j" "j < 12" | "12 \<le> j"
      by linarith
    then show ?thesis
    proof cases
      case 1
      with dj have "r = ?W @ ?B"
        by simp
      then have "dropWhile is_space r = ?B"
        using W by (simp add: dropWhile_append bullet_marker)
      with B show ?thesis
        by (intro goal_if) simp
    next
      case 2
      from header_not_inside [OF 2, of "?W @ ?B"] dj show ?thesis
        by simp
    next
      case 3
      define i where "i = j - 12"
      from 3 dj have di: "drop i (?W @ ?B) = ?h @ r"
        by (simp add: i_def length_header)
      show ?thesis
      proof (cases "i < length ?W")
        case True
        then have "hd (drop i (?W @ ?B)) = ?W ! i"
          by (simp add: hd_drop_conv_nth nth_append del: append_assoc)
        moreover have "?W ! i \<in> set ?W"
          using True by (rule nth_mem)
        ultimately have "is_space (hd (drop i (?W @ ?B)))"
          using W by metis
        with di T_not_space [of r] show ?thesis
          by simp
      next
        case False
        then have le: "length ?W \<le> i"
          by simp
        then have "drop i (?W @ ?B) = drop (i - length ?W) ?B"
          by (rule drop_append_ge)
        with di have "set r \<subseteq> set ?B"
          by (metis set_drop_subset set_append le_sup_iff)
        moreover have "set (dropWhile is_space r) \<subseteq> set r"
          by (auto dest: set_dropWhileD)
        ultimately have "LF \<notin> set (dropWhile is_space r)"
          using B by blast
        then show ?thesis
          by (rule goal_if)
      qed
    qed
  qed
qed


text \<open>
  C10: the pattern \<open>(?:- .*\n)\<close> needs the newline that ends a bullet line. Without an
  override, for a template whose first \<open>TARGET_URLS:\<close> is followed by optional white space,
  a newline, the newline-terminated bullet lines of the entries \<open>zs\<close> and a last bullet
  line \<open>- e\<close> that runs to the end of the file without a newline, the targets are the
  entries \<open>zs\<close> without \<open>e\<close>; when \<open>- e\<close> is the only bullet line, the targets are the
  built-in default.
\<close>

theorem C10_unterminated_bullet_excluded:
  assumes "env = None \<or> env = Some []"
    and "\<not> sublist (js ''TARGET_URLS:'') pre"
    and "\<forall>c\<in>set ws. is_space c"
    and "\<forall>z\<in>set zs. \<forall>c\<in>set z. \<not> is_line_terminator c"
    and "LF \<notin> set e"
  shows "loadTargetURLs env
           (Inr (pre @ js ''TARGET_URLS:'' @ ws @ [LF]
                 @ concat (map (\<lambda>z. js ''- '' @ z @ [LF]) zs) @ js ''- '' @ e))
         = Inr (if zs = [] then [js ''https://www.google.com/finance/quote/VIX:INDEXCBOE'']
                else map trim zs)"
proof (cases "zs = []")
  case True
  from no_match_unterminated [OF assms(2,3,5)]
  have "urls_from_prompt (Inr (pre @ js ''TARGET_URLS:'' @ ws @ LF # js ''- '' @ e))
          = Inr default_urls"
    by (rule urls_from_prompt_default)
  with True assms(1) show ?thesis
    by (simp add: loadTargetURLs_unset default_urls_def)
next
  case False
  have "\<not> (\<exists>z r. js ''- '' @ e = js ''- '' @ z @ LF # r \<and> (\<forall>c\<in>set z. \<not> is_line_terminator c))"
    using assms(5) by auto
  from urls_from_prompt_bullets [OF assms(2,3) False assms(4) this] False assms(1)
  show ?thesis
    by (simp add: loadTargetURLs_unset)
qed

theorem C10_unterminated_bullet_excluded_witness:
  "loadTargetURLs None
     (Inr (js ''# Prompt'' @ [LF] @ js ''TARGET_URLS:'' @ [] @ [LF]
           @ concat (map (\<lambda>z. js ''- '' @ z @ [LF]) [js ''https://a.example''])
           @ js ''- '' @ js ''https://b.example''))
   = Inr [js ''https://a.example'']
   \<and> loadTargetURLs None
     (Inr (js ''# Prompt'' @ [LF] @ js ''TARGET_URLS:'' @ [] @ [LF]
           @ concat (map (\<lambda>z. js ''- '' @ z @ [LF]) [])
           @ js ''- '' @ js ''https://b.example''))
   = Inr [js ''https://www.google.com/finance/quote/VIX:INDEXCBOE'']"
proof -
  have 1: "\<not> sublist (js ''TARGET_URLS:'') (js ''# Prompt'' @ [LF])"
    by (simp add: js_def LF_def sublist_code(3))
  have 2: "\<forall>c\<in>set []. is_space c"
    by simp
  have 3: "\<forall>z\<in>set [js ''https://a.example'']. \<forall>c\<in>set z. \<not> is_line_terminator c"
    by (simp add: js_def is_line_terminator_def)
  have 4: "\<forall>z\<in>set []. \<forall>c\<in>set z. \<not> is_line_terminator c"
    by simp
  have 5: "LF \<notin> set (js ''https://b.example'')"
    by (simp add: js_def LF_def)
  have t: "trim (js ''https://a.example'') = js ''https://a.example''"
    by (simp add: trim_def is_space_def is_white_space_def is_line_terminator_def js_def)
  from C10_unterminated_bullet_excluded [OF _ 1 2 3 5, of None]
    C10_unterminated_bullet_excluded [OF _ 1 2 4 5, of None] t
  show ?thesis
    by simp
qed

end
